theory Spec2Isabelle
  imports Complex_Main "HOL-Library.Signed_Division"
begin

section \<open>Images, rectangles and failures\<close>

text \<open>
  The C++ \<open>int\<close> coordinates of \<open>cv::Rect\<close>, \<open>cv::Size\<close> and \<open>cv::Mat\<close> are
  integers. Where the code adds or subtracts coordinates that nothing bounds
  (\<open>limit_valid_area\<close>), the result is wrapped to 32 bits with \<open>wrap32\<close>, as two's
  complement hardware does. The clamp of \<open>extract_original_area\<close> subtracts values
  between 0 and the size of the buffer, and the padding of \<open>Task_LoadImg\<close> is stated for
  sizes that are not negative and do not shrink: there no operation leaves the range of
  \<open>int\<close> and no wrap is written. Division of \<open>int\<close> truncates towards zero (\<open>sdiv\<close>).
\<close>

definition int32_range :: "int \<Rightarrow> bool" where
  "int32_range v = (- 2147483648 \<le> v \<and> v \<le> 2147483647)"

definition wrap32 :: "int \<Rightarrow> int" where
  "wrap32 v = (v + 2147483648) mod 4294967296 - 2147483648"

datatype error =
    CvAssert string     \<comment> \<open>a failed \<open>CV_Assert\<close> of OpenCV (\<open>cv::Exception\<close>)\<close>
  | RuntimeError string \<comment> \<open>\<open>std::runtime_error\<close> with its message\<close>
  | NullPointer         \<comment> \<open>dereference of an empty \<open>shared_ptr\<close>\<close>
  | OutOfBounds         \<comment> \<open>a write past the end of a fixed-size array\<close>

record Rect =
  rect_x :: int
  rect_y :: int
  rect_width :: int
  rect_height :: int

definition mkRect :: "int \<Rightarrow> int \<Rightarrow> int \<Rightarrow> int \<Rightarrow> Rect" where
  "mkRect x y w h = \<lparr>rect_x = x, rect_y = y, rect_width = w, rect_height = h\<rparr>"

record Size =
  size_width :: int
  size_height :: int

datatype Depth = CV_8U | CV_8S | CV_16U | CV_16S | CV_32S | CV_32F | CV_64F

text \<open>
  \<open>cv::Mat\<close>: a header (rows, columns, element depth, channel count) and the pixels,
  \<open>dat m ! i ! j ! c\<close> being channel \<open>c\<close> of the pixel in row \<open>i\<close> and column \<open>j\<close>.
  The element values are opaque (\<open>'a\<close>).
\<close>

record 'a Mat =
  rows :: int
  cols :: int
  depth :: Depth
  channels :: nat
  dat :: "'a list list list"

text \<open>The default-constructed \<open>cv::Mat()\<close>: no data, type \<open>CV_8UC1\<close>.\<close>

definition Mat0 :: "'a Mat" where
  "Mat0 = \<lparr>rows = 0, cols = 0, depth = CV_8U, channels = 1, dat = []\<rparr>"

text \<open>\<open>Mat::empty()\<close>; the \<open>data\<close> pointer of a matrix is null exactly when it is empty.\<close>

definition mat_empty :: "'a Mat \<Rightarrow> bool" where
  "mat_empty m = (rows m \<le> 0 \<or> cols m \<le> 0)"

text \<open>The header agrees with the pixels.\<close>

definition wf_mat :: "'a Mat \<Rightarrow> bool" where
  "wf_mat m =
     (0 \<le> rows m \<and> 0 \<le> cols m \<and> int (length (dat m)) = rows m \<and>
      list_all (\<lambda>r. int (length r) = cols m \<and> list_all (\<lambda>p. length p = channels m) r) (dat m))"

definition mat_size :: "'a Mat \<Rightarrow> Size" where
  "mat_size m = \<lparr>size_width = cols m, size_height = rows m\<rparr>"

text \<open>\<open>Mat::clone()\<close>: a deep copy; of an empty matrix, the default matrix.\<close>

definition clone :: "'a Mat \<Rightarrow> 'a Mat" where
  "clone m = (if mat_empty m then Mat0 else m)"

text \<open>The pixels of rows \<open>[y, y + h)\<close> and columns \<open>[x, x + w)\<close>.\<close>

definition sub_dat :: "'a list list list \<Rightarrow> int \<Rightarrow> int \<Rightarrow> int \<Rightarrow> int \<Rightarrow> 'a list list list" where
  "sub_dat d x y w h = map (\<lambda>r. take (nat w) (drop (nat x) r)) (take (nat h) (drop (nat y) d))"

text \<open>
  \<open>Mat::operator()(const Rect&)\<close>, the sub-matrix constructor \<open>Mat(const Mat&, const Rect&)\<close>:
  it asserts that the rectangle lies in the matrix, and a rectangle of no area gives a
  released header of size 0 x 0.
\<close>

definition mat_roi :: "'a Mat \<Rightarrow> Rect \<Rightarrow> error + 'a Mat" where
  "mat_roi m roi =
     (if 0 \<le> rect_x roi \<and> 0 \<le> rect_width roi \<and> rect_x roi + rect_width roi \<le> cols m \<and>
         0 \<le> rect_y roi \<and> 0 \<le> rect_height roi \<and> rect_y roi + rect_height roi \<le> rows m
      then Inr (if rect_height roi \<le> 0 \<or> rect_width roi \<le> 0
                then m\<lparr>rows := 0, cols := 0, dat := []\<rparr>
                else m\<lparr>rows := rect_height roi, cols := rect_width roi,
                       dat := sub_dat (dat m) (rect_x roi) (rect_y roi) (rect_width roi) (rect_height roi)\<rparr>)
      else Inl (CvAssert ''0 <= roi.x && 0 <= roi.width && roi.x + roi.width <= m.cols && 0 <= roi.y && 0 <= roi.height && roi.y + roi.height <= m.rows''))"

section \<open>ImgTask: the valid-region model (worker.hh)\<close>

text \<open>
  The fields of \<open>Task\<close>. Tasks refer to each other through \<open>shared_ptr\<close>; a pointer
  is the address (a number) of the task it points to.
\<close>

record Task =
  m_filename :: string
  m_index :: int
  m_jpgquality :: int
  m_name :: string
  m_depends_on :: "nat list"
  m_running :: bool
  m_done :: bool

record 'a ImgTask = Task +
  m_result :: "'a Mat"
  m_valid_area :: Rect

text \<open>
  Modelled from the spec: the constructor \<open>Task::Task()\<close> is not among the sources. A new
  task is Pending, neither running nor done, and has no dependency; its name, path and
  quality are set by the constructors of the subclasses.
\<close>

definition Task_new :: Task where
  "Task_new = \<lparr>m_filename = [], m_index = 0, m_jpgquality = 0, m_name = [],
               m_depends_on = [], m_running = False, m_done = False\<rparr>"

text \<open>\<open>ImgTask(cv::Mat result)\<close>: the valid region starts as the default \<open>cv::Rect()\<close>.\<close>

definition ImgTask_new :: "'a Mat \<Rightarrow> 'a ImgTask" where
  "ImgTask_new result =
     \<lparr>m_filename = m_filename Task_new, m_index = m_index Task_new,
      m_jpgquality = m_jpgquality Task_new, m_name = m_name Task_new,
      m_depends_on = m_depends_on Task_new, m_running = m_running Task_new,
      m_done = m_done Task_new, m_result = result, m_valid_area = mkRect 0 0 0 0\<rparr>"

definition has_valid_area :: "('a, 'b) ImgTask_scheme \<Rightarrow> bool" where
  "has_valid_area t = (rect_width (m_valid_area t) \<noteq> 0 \<and> rect_height (m_valid_area t) \<noteq> 0)"

definition img :: "('a, 'b) ImgTask_scheme \<Rightarrow> 'a Mat" where
  "img t = m_result t"

definition valid_area :: "('a, 'b) ImgTask_scheme \<Rightarrow> Rect" where
  "valid_area t =
     (if \<not> has_valid_area t then mkRect 0 0 (cols (m_result t)) (rows (m_result t))
      else m_valid_area t)"

text \<open>The rectangle \<open>safeRect\<close> that \<open>extract_original_area\<close> computes from the stored region.\<close>

definition safeRect :: "Rect \<Rightarrow> 'a Mat \<Rightarrow> Rect" where
  "safeRect va expanded_img =
     (let sx = max 0 (min (rect_x va) (cols expanded_img - 1));
          sy = max 0 (min (rect_y va) (rows expanded_img - 1));
          sw = min (rect_width va) (cols expanded_img - sx);
          sh = min (rect_height va) (rows expanded_img - sy)
      in mkRect sx sy sw sh)"

definition extract_original_area :: "('a, 'b) ImgTask_scheme \<Rightarrow> 'a Mat \<Rightarrow> error + 'a Mat" where
  "extract_original_area t expanded_img =
     (if \<not> has_valid_area t then Inr expanded_img
      else if rect_x (m_valid_area t) = 0 \<and> rect_y (m_valid_area t) = 0 \<and>
              rect_width (m_valid_area t) = cols expanded_img \<and>
              rect_height (m_valid_area t) = rows expanded_img
      then Inr expanded_img
      else (case mat_roi expanded_img (safeRect (m_valid_area t) expanded_img) of
              Inl e \<Rightarrow> Inl e
            | Inr sub \<Rightarrow> Inr (clone sub)))"

definition img_cropped :: "('a, 'b) ImgTask_scheme \<Rightarrow> error + 'a Mat" where
  "img_cropped t =
     (let result = img t in
      if has_valid_area t \<and>
         (rect_x (m_valid_area t) > 0 \<or> rect_y (m_valid_area t) > 0 \<or>
          rect_width (m_valid_area t) < cols result \<or> rect_height (m_valid_area t) < rows result)
      then extract_original_area t result
      else Inr result)"

text \<open>
  \<open>limit_valid_area\<close>. Its two additions per axis and its subtraction are 32-bit
  operations on operands that nothing bounds, so they are wrapped.
\<close>

definition limit_valid_area :: "('a, 'b) ImgTask_scheme \<Rightarrow> Rect \<Rightarrow> ('a, 'b) ImgTask_scheme" where
  "limit_valid_area t other =
     (let x0 = max (rect_x (m_valid_area t)) (rect_x other);
          y0 = max (rect_y (m_valid_area t)) (rect_y other);
          x1 = min (wrap32 (rect_x (m_valid_area t) + rect_width (m_valid_area t)))
                   (wrap32 (rect_x other + rect_width other));
          y1 = min (wrap32 (rect_y (m_valid_area t) + rect_height (m_valid_area t)))
                   (wrap32 (rect_y other + rect_height other))
      in t\<lparr>m_valid_area := mkRect x0 y0 (wrap32 (x1 - x0)) (wrap32 (y1 - y0))\<rparr>)"

text \<open>
  No addition and no subtraction of \<open>limit_valid_area\<close> leaves the range of a 32-bit
  \<open>int\<close> for the stored rectangle \<open>va\<close> and the argument \<open>other\<close>.
\<close>

definition limit_valid_area_in_range :: "Rect \<Rightarrow> Rect \<Rightarrow> bool" where
  "limit_valid_area_in_range va other =
     (int32_range (rect_x va + rect_width va) \<and> int32_range (rect_x other + rect_width other) \<and>
      int32_range (rect_y va + rect_height va) \<and> int32_range (rect_y other + rect_height other) \<and>
      int32_range (min (rect_x va + rect_width va) (rect_x other + rect_width other)
                     - max (rect_x va) (rect_x other)) \<and>
      int32_range (min (rect_y va + rect_height va) (rect_y other + rect_height other)
                     - max (rect_y va) (rect_y other)))"

text \<open>The pixel positions a rectangle denotes: columns \<open>[x, x + width)\<close>, rows \<open>[y, y + height)\<close>.\<close>

definition rect_points :: "Rect \<Rightarrow> (int \<times> int) set" where
  "rect_points r =
     {(px, py). rect_x r \<le> px \<and> px < rect_x r + rect_width r \<and>
                rect_y r \<le> py \<and> py < rect_y r + rect_height r}"

section \<open>The environment: clock, file system and codec\<close>

text \<open>
  The clock of \<open>std::chrono::system_clock\<close> counts milliseconds. \<open>imread_at w path t\<close> is
  what \<open>cv::imread(path)\<close> returns when called at time \<open>t\<close> (an empty matrix when the file
  cannot be decoded), \<open>good_at w path t\<close> whether \<open>std::ifstream(path).good()\<close> holds at
  time \<open>t\<close>. Decoding takes no time and \<open>sleep_for\<close> sleeps for exactly the time asked.
  The calls of \<open>imread\<close> and \<open>imwrite\<close> are recorded in the order in which they are made.
\<close>

record 'a world =
  now :: int
  imread_at :: "string \<Rightarrow> int \<Rightarrow> 'a Mat"
  good_at :: "string \<Rightarrow> int \<Rightarrow> bool"
  imread_log :: "(string \<times> int) list"
  imwrite_log :: "(string \<times> 'a Mat \<times> int list) list"

definition imread :: "string \<Rightarrow> 'a world \<Rightarrow> 'a Mat \<times> 'a world" where
  "imread path w = (imread_at w path (now w), w\<lparr>imread_log := imread_log w @ [(path, now w)]\<rparr>)"

definition sleep_for :: "int \<Rightarrow> 'a world \<Rightarrow> 'a world" where
  "sleep_for ms w = w\<lparr>now := now w + ms\<rparr>"

definition imwrite :: "string \<Rightarrow> 'a Mat \<Rightarrow> int list \<Rightarrow> 'a world \<Rightarrow> 'a world" where
  "imwrite path m params w = w\<lparr>imwrite_log := imwrite_log w @ [(path, m, params)]\<rparr>"

definition IMWRITE_JPEG_QUALITY :: int where
  "IMWRITE_JPEG_QUALITY = 1"

section \<open>OpenCV operations used by the tasks\<close>

text \<open>
  \<open>cv::borderInterpolate(p, len, BORDER_REFLECT)\<close>: the index inside \<open>[0, len)\<close> that
  position \<open>p\<close> reflects to (\<open>fedcba|abcdefgh|hgfedcb\<close>).
\<close>

function borderInterpolate :: "int \<Rightarrow> int \<Rightarrow> int" where
  "borderInterpolate p len =
     (if 0 \<le> p \<and> p < len then p
      else if len \<le> 1 then 0
      else borderInterpolate (if p < 0 then - p - 1 else len - 1 - (p - len)) len)"
  by pat_completeness auto
termination
  by (relation "measure (\<lambda>(p, len). nat \<bar>p\<bar>)") auto

declare borderInterpolate.simps [simp del]

text \<open>
  The pixels of a matrix of \<open>nrows\<close> rows and \<open>ncols\<close> columns that holds \<open>src\<close> with its
  first pixel in row \<open>btop\<close> and column \<open>bleft\<close>, every other pixel being reflected from
  \<open>src\<close>.
\<close>

definition reflect_dat :: "'a Mat \<Rightarrow> int \<Rightarrow> int \<Rightarrow> nat \<Rightarrow> nat \<Rightarrow> 'a list list list" where
  "reflect_dat src btop bleft nrows ncols =
     map (\<lambda>i. map (\<lambda>j. dat src ! nat (borderInterpolate (int i - btop) (rows src))
                              ! nat (borderInterpolate (int j - bleft) (cols src)))
                [0..<ncols])
         [0..<nrows]"

text \<open>
  \<open>cv::copyMakeBorder(src, dst, top, bottom, left, right, BORDER_REFLECT)\<close> for a source
  that is not a sub-matrix, with borders of \<open>btop\<close>, \<open>bbottom\<close>, \<open>bleft\<close> and
  \<open>bright\<close> pixels: pixel \<open>(i, j)\<close> of the result is the source pixel at the reflected
  position of \<open>(i - btop, j - bleft)\<close>.
\<close>

definition copyMakeBorder :: "'a Mat \<Rightarrow> int \<Rightarrow> int \<Rightarrow> int \<Rightarrow> int \<Rightarrow> error + 'a Mat" where
  "copyMakeBorder src btop bbottom bleft bright =
     (if \<not> (btop \<ge> 0 \<and> bbottom \<ge> 0 \<and> bleft \<ge> 0 \<and> bright \<ge> 0)
      then Inl (CvAssert ''top >= 0 && bottom >= 0 && left >= 0 && right >= 0'')
      else if btop = 0 \<and> bleft = 0 \<and> bbottom = 0 \<and> bright = 0 then Inr src
      else if mat_empty src then Inl (CvAssert ''len > 0'')
      else Inr (src\<lparr>rows := rows src + btop + bbottom, cols := cols src + bleft + bright,
                    dat := reflect_dat src btop bleft (nat (rows src + btop + bbottom))
                             (nat (cols src + bleft + bright))\<rparr>))"

text \<open>\<open>cv::split\<close>: one single-channel matrix per channel.\<close>

definition split :: "'a Mat \<Rightarrow> 'a Mat list" where
  "split m = map (\<lambda>c. m\<lparr>channels := 1, dat := map (map (\<lambda>p. [p ! c])) (dat m)\<rparr>) [0..<channels m]"

text \<open>
  \<open>cv::merge\<close>: the matrices must agree in size and depth; the channels of the result
  are those of the inputs, one input after the other.
\<close>

definition merge :: "'a Mat list \<Rightarrow> error + 'a Mat" where
  "merge mv =
     (case mv of
        [] \<Rightarrow> Inl (CvAssert ''mv && n > 0'')
      | m0 # _ \<Rightarrow>
          if list_all (\<lambda>m. mat_size m = mat_size m0 \<and> depth m = depth m0) mv
          then Inr (m0\<lparr>channels := sum_list (map channels mv),
                       dat := map (\<lambda>i. map (\<lambda>j. concat (map (\<lambda>m. dat m ! i ! j) mv))
                                         [0..<nat (cols m0)])
                                  [0..<nat (rows m0)]\<rparr>)
          else Inl (CvAssert ''mv[i].size == mv[0].size && mv[i].depth() == depth''))"

text \<open>
  \<open>m.convertTo(m, CV_8U)\<close>: every element goes through \<open>saturate_cast<uchar>\<close>, here the
  parameter \<open>sat\<close>, which is given the depth it converts from.
\<close>

definition convertTo_8U :: "(Depth \<Rightarrow> 'a \<Rightarrow> 'a) \<Rightarrow> 'a Mat \<Rightarrow> 'a Mat" where
  "convertTo_8U sat m = m\<lparr>depth := CV_8U, dat := map (map (map (sat (depth m)))) (dat m)\<rparr>"

text \<open>\<open>m.create(rows, cols, CV_8U); m = 0\<close>: a single-channel matrix of zeros.\<close>

definition zeros_8U :: "'a \<Rightarrow> int \<Rightarrow> int \<Rightarrow> 'a Mat" where
  "zeros_8U zero r c =
     \<lparr>rows = r, cols = c, depth = CV_8U, channels = 1,
      dat = replicate (nat r) (replicate (nat c) [zero])\<rparr>"

section \<open>Task_LoadImg (task_loadimg.cc)\<close>

record 'a Task_LoadImg = "'a ImgTask" +
  m_wait_images :: real
  m_wait_images_until :: int
  m_orig_size :: Size
  m_original_image :: "'a Mat"

text \<open>The conversion \<open>(int)\<close> of a number that is in the range of \<open>int\<close> truncates towards zero.\<close>

definition to_int :: "real \<Rightarrow> int" where
  "to_int r = (if 0 \<le> r then \<lfloor>r\<rfloor> else \<lceil>r\<rceil>)"

text \<open>
  \<open>Task_LoadImg(std::string filename, float wait_images)\<close>, constructed at time \<open>now w\<close>.
  The deadline is \<open>(int)(m_wait_images * 1000)\<close> milliseconds later. The product is
  rounded as a floating-point number and its conversion is defined only inside the range
  of \<open>int\<close>, so the constructor is given the converted number \<open>wait_ms\<close> next to the
  window. For a window of a whole number of milliseconds below \<open>2 ^ 24\<close> the product is
  exact and \<open>wait_ms\<close> is \<open>to_int (wait_images * 1000)\<close>.
\<close>

definition Task_LoadImg_file :: "string \<Rightarrow> real \<Rightarrow> int \<Rightarrow> 'a world \<Rightarrow> 'a Task_LoadImg" where
  "Task_LoadImg_file filename wait_images wait_ms w =
     \<lparr>m_filename = filename, m_index = m_index Task_new, m_jpgquality = m_jpgquality Task_new,
      m_name = ''Load '' @ filename, m_depends_on = m_depends_on Task_new,
      m_running = m_running Task_new, m_done = m_done Task_new,
      m_result = Mat0, m_valid_area = mkRect 0 0 0 0,
      m_wait_images = wait_images,
      m_wait_images_until = now w + wait_ms,
      m_orig_size = \<lparr>size_width = 0, size_height = 0\<rparr>, m_original_image = Mat0\<rparr>"

text \<open>
  \<open>Task_LoadImg(std::string name, const cv::Mat &img)\<close>; the window is 0, whose product
  with 1000 is exactly 0.
\<close>

definition Task_LoadImg_memory :: "string \<Rightarrow> 'a Mat \<Rightarrow> 'a world \<Rightarrow> 'a Task_LoadImg" where
  "Task_LoadImg_memory name src_img w =
     \<lparr>m_filename = name, m_index = m_index Task_new, m_jpgquality = m_jpgquality Task_new,
      m_name = ''Memory image '' @ name, m_depends_on = m_depends_on Task_new,
      m_running = m_running Task_new, m_done = m_done Task_new,
      m_result = clone src_img, m_valid_area = mkRect 0 0 0 0,
      m_wait_images = 0,
      m_wait_images_until = now w + to_int (0 * 1000),
      m_orig_size = \<lparr>size_width = 0, size_height = 0\<rparr>, m_original_image = Mat0\<rparr>"

text \<open>
  Modelled from the spec: \<open>Task::ready_to_run()\<close> is defined in worker.cc, which is not
  among the sources. It is true iff every dependency reports \<open>is_completed()\<close>;
  \<open>completed p\<close> is what the task at address \<open>p\<close> reports.
\<close>

definition Task_ready_to_run :: "(nat \<Rightarrow> bool) \<Rightarrow> ('b) Task_scheme \<Rightarrow> bool" where
  "Task_ready_to_run completed t = list_all completed (m_depends_on t)"

definition Task_LoadImg_ready_to_run ::
    "(nat \<Rightarrow> bool) \<Rightarrow> 'a world \<Rightarrow> ('a, 'b) Task_LoadImg_scheme \<Rightarrow> bool" where
  "Task_LoadImg_ready_to_run completed w t =
     (if \<not> Task_ready_to_run completed t then False
      else if m_wait_images t > 0 \<and> now w < m_wait_images_until t \<and>
              \<not> good_at w (m_filename t) (now w)
      then False
      else True)"

text \<open>The loop of \<open>Task_LoadImg::task\<close> that sleeps and decodes again.\<close>

function retry_imread :: "string \<Rightarrow> int \<Rightarrow> 'a Mat \<Rightarrow> 'a world \<Rightarrow> 'a Mat \<times> 'a world" where
  "retry_imread path until res w =
     (if mat_empty res \<and> now w < until
      then (case imread path (sleep_for 100 w) of (res', w') \<Rightarrow> retry_imread path until res' w')
      else (res, w))"
  by pat_completeness auto
termination
  by (relation "measure (\<lambda>(path, until, res, w). nat (until - now w))")
     (auto simp: imread_def sleep_for_def)

declare retry_imread.simps [simp del]

text \<open>
  Lines 51 to 60 of \<open>Task_LoadImg::task\<close>: decode unless an image was supplied, and
  decode again every 100 ms while there is no image and the deadline has not passed.
\<close>

definition Task_LoadImg_decode :: "('a, 'b) Task_LoadImg_scheme \<Rightarrow> 'a world \<Rightarrow> 'a Mat \<times> 'a world" where
  "Task_LoadImg_decode t w =
     (case (if mat_empty (m_result t) then imread (m_filename t) w else (m_result t, w)) of
        (res1, w1) \<Rightarrow> retry_imread (m_filename t) (m_wait_images_until t) res1 w1)"

text \<open>
  Lines 67 to 102 of \<open>Task_LoadImg::task\<close>, for the decoded image \<open>res\<close>: the original
  size, the valid region, the copy of the original, and the padding to the expanded size.
  \<open>levels_for_size\<close> stands for \<open>Task_Wavelet::levels_for_size\<close>, which is not among
  the sources: it returns the number of levels and the expanded size. The messages to the
  logger are left out.
\<close>

definition Task_LoadImg_expand ::
    "(Size \<Rightarrow> int \<times> Size) \<Rightarrow> 'a Task_LoadImg \<Rightarrow> 'a Mat \<Rightarrow> error + 'a Task_LoadImg" where
  "Task_LoadImg_expand levels_for_size t res =
     (let orig = mat_size res;
          t1 = t\<lparr>m_result := res, m_orig_size := orig,
                 m_valid_area := mkRect 0 0 (cols res) (rows res),
                 m_original_image := clone res\<rparr>;
          expanded = snd (levels_for_size orig)
      in if expanded \<noteq> orig then
           let expand_x = size_width expanded - size_width orig;
               expand_y = size_height expanded - size_height orig
           in if size_height expanded < 0 \<or> size_width expanded < 0
              then Inl (CvAssert ''_sizes[i] >= 0'')
              else (case copyMakeBorder res (expand_y sdiv 2) (expand_y - expand_y sdiv 2)
                                          (expand_x sdiv 2) (expand_x - expand_x sdiv 2) of
                      Inl e \<Rightarrow> Inl e
                    | Inr tmp \<Rightarrow>
                        Inr (t1\<lparr>m_result := tmp,
                                m_valid_area := mkRect (expand_x sdiv 2) (expand_y sdiv 2)
                                                  (size_width orig) (size_height orig)\<rparr>))
         else Inr t1)"

text \<open>\<open>Task_LoadImg::task\<close>.\<close>

definition Task_LoadImg_task ::
    "(Size \<Rightarrow> int \<times> Size) \<Rightarrow> 'a Task_LoadImg \<Rightarrow> 'a world \<Rightarrow> (error + 'a Task_LoadImg) \<times> 'a world" where
  "Task_LoadImg_task levels_for_size t w =
     (case Task_LoadImg_decode t w of
        (res, w2) \<Rightarrow>
          if mat_empty res then (Inl (RuntimeError (''Could not load '' @ m_filename t)), w2)
          else (Task_LoadImg_expand levels_for_size t res, w2))"

section \<open>Task_SaveImg (task_saveimg.cc)\<close>

text \<open>
  \<open>Task_SaveImg\<close> is an \<open>ImgTask\<close> (it has its own \<open>m_result\<close> and \<open>m_valid_area\<close>) with
  pointers to the input and to the optional alpha mask. \<open>heap p\<close> is the \<open>ImgTask\<close> at
  address \<open>p\<close>; \<open>None\<close> is the empty \<open>shared_ptr\<close>.
\<close>

record 'a Task_SaveImg = "'a ImgTask" +
  m_nocrop :: bool
  m_input :: "nat option"
  m_alphamask :: "nat option"

text \<open>The constructor; the required input is a pointer to a live task.\<close>

definition Task_SaveImg_new ::
    "(nat \<Rightarrow> 'a ImgTask) \<Rightarrow> string \<Rightarrow> nat \<Rightarrow> nat option \<Rightarrow> int \<Rightarrow> bool \<Rightarrow> 'a Task_SaveImg" where
  "Task_SaveImg_new heap filename input alphamask jpgquality nocrop =
     \<lparr>m_filename = filename, m_index = m_index Task_new, m_jpgquality = jpgquality,
      m_name = (if filename \<noteq> [] \<and> filename \<noteq> '':memory:'' then ''Save '' @ filename
                else ''Final crop '' @ m_filename (heap input)),
      m_depends_on = (m_depends_on Task_new @ [input]) @
                     (case alphamask of None \<Rightarrow> [] | Some a \<Rightarrow> [a]),
      m_running = m_running Task_new, m_done = m_done Task_new,
      m_result = Mat0, m_valid_area = mkRect 0 0 0 0,
      m_nocrop = nocrop, m_input = Some input, m_alphamask = alphamask\<rparr>"

text \<open>
  Lines 35 to 72 of \<open>Task_SaveImg::task\<close>: the result and the valid region, with and without
  cropping. \<open>has_valid_area\<close> and \<open>extract_original_area\<close> are called on the task itself,
  \<open>img\<close>, \<open>valid_area\<close> and \<open>img_cropped\<close> on the input.
\<close>

definition Task_SaveImg_crop ::
    "(nat \<Rightarrow> 'a ImgTask) \<Rightarrow> 'a Task_SaveImg \<Rightarrow> error + 'a Task_SaveImg" where
  "Task_SaveImg_crop heap t =
     (case m_input t of
        None \<Rightarrow> Inl NullPointer
      | Some p \<Rightarrow>
          let inputImg = img (heap p);
              validArea = valid_area (heap p)
          in if m_nocrop t then
               if has_valid_area t \<and>
                  (rect_x validArea > 0 \<or> rect_y validArea > 0 \<or>
                   rect_width validArea < cols inputImg \<or> rect_height validArea < rows inputImg)
               then (case extract_original_area t inputImg of
                       Inl e \<Rightarrow> Inl e
                     | Inr r \<Rightarrow> Inr (t\<lparr>m_result := r, m_valid_area := mkRect 0 0 (cols r) (rows r)\<rparr>))
               else Inr (t\<lparr>m_result := inputImg, m_valid_area := validArea\<rparr>)
             else
               (case extract_original_area t inputImg of
                  Inl e \<Rightarrow> Inl e
                | Inr unpadded \<Rightarrow>
                    (case img_cropped (heap p) of
                       Inl e \<Rightarrow> Inl e
                     | Inr r \<Rightarrow> Inr (t\<lparr>m_result := r, m_valid_area := mkRect 0 0 (cols r) (rows r)\<rparr>))))"

text \<open>Lines 74 to 84: a two-channel result becomes a three-channel image of depth 8U.\<close>

definition Task_SaveImg_complex :: "(Depth \<Rightarrow> 'a \<Rightarrow> 'a) \<Rightarrow> 'a \<Rightarrow> 'a Mat \<Rightarrow> error + 'a Mat" where
  "Task_SaveImg_complex sat zero res =
     (if channels res = 2
      then merge [convertTo_8U sat (split res ! 0), convertTo_8U sat (split res ! 1),
                  zeros_8U zero (rows res) (cols res)]
      else Inr res)"

text \<open>
  Lines 87 to 116: the alpha channel. The array \<open>channels[4]\<close> starts as four default
  matrices; \<open>cv::split\<close> fills one entry per channel of the result.
\<close>

definition Task_SaveImg_alpha ::
    "(nat \<Rightarrow> 'a ImgTask) \<Rightarrow> 'a Task_SaveImg \<Rightarrow> 'a Mat \<Rightarrow> error + 'a Mat" where
  "Task_SaveImg_alpha heap t res =
     (case m_alphamask t of
        None \<Rightarrow> Inr res
      | Some a \<Rightarrow>
          (case (if channels res = 1 then Inr [res, res, res, Mat0]
                 else if 4 < channels res then Inl OutOfBounds
                 else Inr (split res @ replicate (4 - channels res) Mat0)) of
             Inl e \<Rightarrow> Inl e
           | Inr chs \<Rightarrow>
               (case (if m_nocrop t then
                        let maskImg = img (heap a)
                        in if has_valid_area (heap a) then extract_original_area (heap a) maskImg
                           else Inr maskImg
                      else img_cropped (heap a)) of
                  Inl e \<Rightarrow> Inl e
                | Inr alpha \<Rightarrow> merge (chs[3 := alpha]))))"

text \<open>\<open>Task_SaveImg::task\<close>. The messages to the logger are left out.\<close>

definition Task_SaveImg_task ::
    "(Depth \<Rightarrow> 'a \<Rightarrow> 'a) \<Rightarrow> 'a \<Rightarrow> (nat \<Rightarrow> 'a ImgTask) \<Rightarrow> 'a Task_SaveImg \<Rightarrow> 'a world \<Rightarrow>
     (error + 'a Task_SaveImg) \<times> 'a world" where
  "Task_SaveImg_task sat zero heap t w =
     (case Task_SaveImg_crop heap t of
        Inl e \<Rightarrow> (Inl e, w)
      | Inr t1 \<Rightarrow>
     (case Task_SaveImg_complex sat zero (m_result t1) of
        Inl e \<Rightarrow> (Inl e, w)
      | Inr res2 \<Rightarrow>
     (case Task_SaveImg_alpha heap t1 res2 of
        Inl e \<Rightarrow> (Inl e, w)
      | Inr res3 \<Rightarrow>
          let t2 = t1\<lparr>m_result := res3, m_input := None, m_alphamask := None\<rparr>
          in if m_filename t2 \<noteq> [] \<and> m_filename t2 \<noteq> '':memory:''
             then (Inr t2, imwrite (m_filename t2) (m_result t2)
                                   [IMWRITE_JPEG_QUALITY, m_jpgquality t2] w)
             else (Inr t2, w))))"

section \<open>Worker: the scheduling loop\<close>

text \<open>
  Modelled from the spec: the scheduling loop \<open>Worker::worker\<close>, \<open>Worker::add\<close> and
  \<open>Worker::prepend\<close> are defined in worker.cc, which is not among the sources; worker.hh
  declares the fields only. Following section 4.5 of the specification, every access to
  the queue, the running set and the resource counter happens under the one shared lock,
  so the pool moves in atomic steps: a task is added or prepended; a free thread, under
  the lock, takes the first task of the queue that is ready to run and, if it uses
  OpenCL, for which the counter is below the cap, marks it running and counts it; a
  thread whose task has returned, under the lock, takes it out of the running set and
  decrements the counters. Tasks are addresses. The fields \<open>m_tasks\<close>, \<open>m_running\<close>,
  \<open>m_opencl_users\<close>, \<open>m_total_tasks\<close> and \<open>m_completed_tasks\<close> of worker.hh are
  \<open>wk_tasks\<close>, \<open>wk_running\<close>, \<open>wk_opencl_users\<close>, \<open>wk_total_tasks\<close> and
  \<open>wk_completed_tasks\<close>; \<open>wk_thread s i\<close> is the task thread \<open>i\<close> is executing, and
  \<open>wk_finished\<close> holds the tasks that report \<open>is_completed()\<close>. \<open>opencl_cap\<close> is the fixed
  cap on the resource counter.
\<close>

record Pool =
  max_threads :: nat
  opencl_cap :: int
  uses_opencl :: "nat \<Rightarrow> bool"
  depends_on :: "nat \<Rightarrow> nat list"

record Worker =
  wk_tasks :: "nat list"
  wk_running :: "nat set"
  wk_opencl_users :: int
  wk_total_tasks :: int
  wk_completed_tasks :: int
  wk_finished :: "nat set"
  wk_thread :: "nat \<Rightarrow> nat option"

datatype event = Add nat | Prepend nat | Start nat | Finish nat

definition Worker_new :: Worker where
  "Worker_new = \<lparr>wk_tasks = [], wk_running = {}, wk_opencl_users = 0, wk_total_tasks = 0,
                 wk_completed_tasks = 0, wk_finished = {}, wk_thread = (\<lambda>i. None)\<rparr>"

definition eligible :: "Pool \<Rightarrow> Worker \<Rightarrow> nat \<Rightarrow> bool" where
  "eligible P s t =
     (list_all (\<lambda>d. d \<in> wk_finished s) (depends_on P t) \<and>
      (if uses_opencl P t then wk_opencl_users s < opencl_cap P else True))"

fun worker_step :: "Pool \<Rightarrow> event \<Rightarrow> Worker \<Rightarrow> Worker option" where
  "worker_step P (Add t) s =
     Some (s\<lparr>wk_tasks := wk_tasks s @ [t], wk_total_tasks := wk_total_tasks s + 1\<rparr>)"
| "worker_step P (Prepend t) s =
     Some (s\<lparr>wk_tasks := t # wk_tasks s\<rparr>)"
| "worker_step P (Start i) s =
     (if i < max_threads P \<and> wk_thread s i = None then
        (case find (eligible P s) (wk_tasks s) of
           None \<Rightarrow> None
         | Some t \<Rightarrow>
             Some (s\<lparr>wk_tasks := remove1 t (wk_tasks s),
                     wk_running := insert t (wk_running s),
                     wk_opencl_users := wk_opencl_users s + (if uses_opencl P t then 1 else 0),
                     wk_thread := (wk_thread s)(i \<mapsto> t)\<rparr>))
      else None)"
| "worker_step P (Finish i) s =
     (case wk_thread s i of
        None \<Rightarrow> None
      | Some t \<Rightarrow>
          Some (s\<lparr>wk_running := wk_running s - {t},
                  wk_opencl_users := wk_opencl_users s - (if uses_opencl P t then 1 else 0),
                  wk_completed_tasks := wk_completed_tasks s + 1,
                  wk_finished := insert t (wk_finished s),
                  wk_thread := (wk_thread s)(i := None)\<rparr>))"

text \<open>A run of the pool: a sequence of steps, each of them enabled.\<close>

fun worker_run :: "Pool \<Rightarrow> event list \<Rightarrow> Worker \<Rightarrow> Worker option" where
  "worker_run P [] s = Some s"
| "worker_run P (e # es) s =
     (case worker_step P e s of None \<Rightarrow> None | Some s' \<Rightarrow> worker_run P es s')"

section \<open>Concrete inputs\<close>

text \<open>A 4 x 4 single-channel image; the pixel in row \<open>i\<close> and column \<open>j\<close> is \<open>10 i + j\<close>.\<close>

definition gray4x4 :: "nat Mat" where
  "gray4x4 = \<lparr>rows = 4, cols = 4, depth = CV_8U, channels = 1,
              dat = [[[0], [1], [2], [3]], [[10], [11], [12], [13]],
                     [[20], [21], [22], [23]], [[30], [31], [32], [33]]]\<rparr>"

text \<open>Its central 2 x 2 region.\<close>

definition gray2x2 :: "nat Mat" where
  "gray2x2 = \<lparr>rows = 2, cols = 2, depth = CV_8U, channels = 1,
              dat = [[[11], [12]], [[21], [22]]]\<rparr>"

text \<open>A world at time 0 in which no file can be read.\<close>

definition world0 :: "nat world" where
  "world0 = \<lparr>now = 0, imread_at = (\<lambda>path t. Mat0), good_at = (\<lambda>path t. False),
             imread_log = [], imwrite_log = []\<rparr>"

text \<open>A world at time 0 in which every path holds \<open>gray2x2\<close> from time 250 on.\<close>

definition world1 :: "nat world" where
  "world1 = \<lparr>now = 0, imread_at = (\<lambda>path t. if 250 \<le> t then gray2x2 else Mat0),
             good_at = (\<lambda>path t. 250 \<le> t), imread_log = [], imwrite_log = []\<rparr>"


text \<open>An expanded size as a wavelet transform asks for: both sides rounded up to a multiple of 4.\<close>

definition levels4 :: "Size \<Rightarrow> int \<times> Size" where
  "levels4 sz = (2, \<lparr>size_width = 4 * ((size_width sz + 3) div 4),
                     size_height = 4 * ((size_height sz + 3) div 4)\<rparr>)"

text \<open>An image task over \<open>gray4x4\<close> whose valid region is the central 2 x 2 square.\<close>

definition padded_task :: "nat ImgTask" where
  "padded_task = (ImgTask_new gray4x4)\<lparr>m_valid_area := mkRect 1 1 2 2\<rparr>"

text \<open>An image task whose valid region ends beyond the largest \<open>int\<close>.\<close>

definition wide_task :: "nat ImgTask" where
  "wide_task = (ImgTask_new gray4x4)\<lparr>m_valid_area := mkRect 2147483600 0 100 10\<rparr>"

text \<open>An image task over \<open>gray4x4\<close> whose valid region reaches past the buffer.\<close>

definition overhang_task :: "nat ImgTask" where
  "overhang_task = (ImgTask_new gray4x4)\<lparr>m_valid_area := mkRect 3 3 7 7\<rparr>"

text \<open>A load task that waits up to 2 seconds for its file, constructed at time 0.\<close>

definition waiting_task :: "nat Task_LoadImg" where
  "waiting_task = Task_LoadImg_file ''a.jpg'' 2 (to_int (2 * 1000)) world0"


text \<open>A load task without a wait window, given a dependency on the task at address 5.\<close>

definition eager_task :: "nat Task_LoadImg" where
  "eager_task = (Task_LoadImg_file ''a.jpg'' 0 (to_int (0 * 1000)) world0)\<lparr>m_depends_on := [5]\<rparr>"

text \<open>A heap in which every address holds \<open>padded_task\<close>.\<close>

definition heap1 :: "nat \<Rightarrow> nat ImgTask" where
  "heap1 = (\<lambda>p. padded_task)"

text \<open>Save tasks on the input at address 0: in memory without cropping, and to a file with cropping.\<close>

definition save_memory_nocrop :: "nat Task_SaveImg" where
  "save_memory_nocrop = Task_SaveImg_new heap1 '':memory:'' 0 None 90 True"


text \<open>A 2 x 3 single-channel image, and a load task that was given it in memory.\<close>

definition gray2x3 :: "nat Mat" where
  "gray2x3 = \<lparr>rows = 2, cols = 3, depth = CV_8U, channels = 1,
              dat = [[[1], [2], [3]], [[4], [5], [6]]]\<rparr>"

definition memory_task :: "nat Task_LoadImg" where
  "memory_task = Task_LoadImg_memory ''mem'' gray2x3 world0"

text \<open>The threads that are executing a task that uses OpenCL.\<close>

definition opencl_threads :: "Pool \<Rightarrow> Worker \<Rightarrow> nat set" where
  "opencl_threads P s = {i. \<exists>t. wk_thread s i = Some t \<and> uses_opencl P t}"

text \<open>
  What holds in every state of a run: only threads of the pool execute tasks, the
  resource counter is the number of threads executing a task that uses OpenCL, it is at
  most the cap, and every task of the running set is executed by some thread.
\<close>

definition worker_inv :: "Pool \<Rightarrow> Worker \<Rightarrow> bool" where
  "worker_inv P s =
     ((\<forall>i t. wk_thread s i = Some t \<longrightarrow> i < max_threads P) \<and>
      wk_opencl_users s = int (card (opencl_threads P s)) \<and>
      wk_opencl_users s \<le> opencl_cap P \<and>
      wk_running s \<subseteq> {t. \<exists>i. wk_thread s i = Some t})"

text \<open>A pool of two threads with a cap of 1 in which every task uses OpenCL and none has a dependency.\<close>

definition pool2 :: Pool where
  "pool2 = \<lparr>max_threads = 2, opencl_cap = 1, uses_opencl = (\<lambda>t. True), depends_on = (\<lambda>t. [])\<rparr>"

section \<open>Properties of the valid-region model\<close>

lemma safeRect_simps:
  "rect_x (safeRect va b) = max 0 (min (rect_x va) (cols b - 1))"
  "rect_y (safeRect va b) = max 0 (min (rect_y va) (rows b - 1))"
  "rect_width (safeRect va b) = min (rect_width va) (cols b - max 0 (min (rect_x va) (cols b - 1)))"
  "rect_height (safeRect va b) = min (rect_height va) (rows b - max 0 (min (rect_y va) (rows b - 1)))"
  by (simp_all add: safeRect_def mkRect_def Let_def)

text \<open>Pixel \<open>(i, j)\<close> of a cropped block is pixel \<open>(y + i, x + j)\<close> of the buffer.\<close>

lemma crop_nth:
  fixes x y w h i j :: nat
  assumes "y + i < length d" and "i < h" and "x + j < length (d ! (y + i))" and "j < w"
  shows "map (\<lambda>r. take w (drop x r)) (take h (drop y d)) ! i ! j = d ! (y + i) ! (x + j)"
proof -
  have len: "i < length (take h (drop y d))"
    using assms(1,2) by simp
  have row: "take h (drop y d) ! i = d ! (y + i)"
    using assms(1,2) by (simp add: nth_take nth_drop)
  have "map (\<lambda>r. take w (drop x r)) (take h (drop y d)) ! i = take w (drop x (d ! (y + i)))"
    using len row by (simp only: nth_map)
  then show ?thesis
    using assms(3,4) by (simp add: nth_take nth_drop)
qed

lemma sub_dat_nth:
  assumes "nat y + i < length d" and "i < nat h"
      and "nat x + j < length (d ! (nat y + i))" and "j < nat w"
  shows "sub_dat d x y w h ! i ! j = d ! (nat y + i) ! (nat x + j)"
  unfolding sub_dat_def using assms by (rule crop_nth)

text \<open>
  Claim C10. When the stored valid region has strictly positive width and height and the
  buffer is not empty, the rectangle that \<open>extract_original_area\<close> clamps and extracts lies
  inside the buffer: its origin is not negative, its right edge is at most the number of
  columns, its lower edge at most the number of rows. The sub-matrix is therefore taken
  without a failed assertion, also when the stored region reaches past the buffer.
\<close>

theorem extract_original_area_in_bounds:
  assumes "0 < rect_width (m_valid_area t)" and "0 < rect_height (m_valid_area t)"
      and "0 < rows b" and "0 < cols b"
  shows "0 \<le> rect_x (safeRect (m_valid_area t) b) \<and>
         0 \<le> rect_y (safeRect (m_valid_area t) b) \<and>
         0 < rect_width (safeRect (m_valid_area t) b) \<and>
         0 < rect_height (safeRect (m_valid_area t) b) \<and>
         rect_x (safeRect (m_valid_area t) b) + rect_width (safeRect (m_valid_area t) b) \<le> cols b \<and>
         rect_y (safeRect (m_valid_area t) b) + rect_height (safeRect (m_valid_area t) b) \<le> rows b \<and>
         (\<exists>m. extract_original_area t b = Inr m)"
proof -
  let ?r = "safeRect (m_valid_area t) b"
  have b: "0 \<le> rect_x ?r" "0 \<le> rect_y ?r" "0 < rect_width ?r" "0 < rect_height ?r"
    "rect_x ?r + rect_width ?r \<le> cols b" "rect_y ?r + rect_height ?r \<le> rows b"
    using assms unfolding safeRect_simps by linarith+
  then have "\<exists>m. mat_roi b ?r = Inr m"
    by (simp add: mat_roi_def)
  then have "\<exists>m. extract_original_area t b = Inr m"
    by (auto simp: extract_original_area_def)
  with b show ?thesis by blast
qed

theorem extract_original_area_in_bounds_witness:
  "0 < rect_width (m_valid_area overhang_task) \<and> 0 < rect_height (m_valid_area overhang_task) \<and>
   0 < rows gray4x4 \<and> 0 < cols gray4x4 \<and>
   safeRect (m_valid_area overhang_task) gray4x4 = mkRect 3 3 1 1 \<and>
   (\<exists>m. extract_original_area overhang_task gray4x4 = Inr m)"
  using extract_original_area_in_bounds [of overhang_task gray4x4]
  by (simp add: overhang_task_def ImgTask_new_def gray4x4_def mkRect_def safeRect_def)

text \<open>The three outcomes of \<open>extract_original_area\<close>.\<close>

lemma extract_original_area_copy:
  assumes "has_valid_area t"
      and "\<not> (rect_x (m_valid_area t) = 0 \<and> rect_y (m_valid_area t) = 0 \<and>
              rect_width (m_valid_area t) = cols b \<and> rect_height (m_valid_area t) = rows b)"
      and "mat_roi b (safeRect (m_valid_area t) b) = Inr sub"
  shows "extract_original_area t b = Inr (clone sub)"
  using assms unfolding extract_original_area_def by auto

lemma extract_original_area_same:
  assumes "\<not> has_valid_area t \<or>
         (rect_x (m_valid_area t) = 0 \<and> rect_y (m_valid_area t) = 0 \<and>
          rect_width (m_valid_area t) = cols b \<and> rect_height (m_valid_area t) = rows b)"
  shows "extract_original_area t b = Inr b"
  using assms unfolding extract_original_area_def by auto

lemma extract_original_area_clamped:
  assumes hv: "has_valid_area t"
      and nc: "\<not> (rect_x (m_valid_area t) = 0 \<and> rect_y (m_valid_area t) = 0 \<and>
              rect_width (m_valid_area t) = cols b \<and> rect_height (m_valid_area t) = rows b)"
      and pos: "0 < rect_width (m_valid_area t)" "0 < rect_height (m_valid_area t)"
      and sz: "0 \<le> rows b" "0 \<le> cols b"
  shows "extract_original_area t b =
      Inr (let r = safeRect (m_valid_area t) b
           in if rect_width r = 0 \<or> rect_height r = 0 then Mat0
              else b\<lparr>rows := rect_height r, cols := rect_width r,
                     dat := sub_dat (dat b) (rect_x r) (rect_y r) (rect_width r) (rect_height r)\<rparr>)"
proof -
  let ?r = "safeRect (m_valid_area t) b"
  have b: "0 \<le> rect_x ?r" "0 \<le> rect_y ?r" "0 \<le> rect_width ?r" "0 \<le> rect_height ?r"
    "rect_x ?r + rect_width ?r \<le> cols b" "rect_y ?r + rect_height ?r \<le> rows b"
    using sz pos unfolding safeRect_simps by linarith+
  show ?thesis
  proof (cases "rect_width ?r = 0 \<or> rect_height ?r = 0")
    case True
    with b have "mat_roi b ?r = Inr (b\<lparr>rows := 0, cols := 0, dat := []\<rparr>)"
      by (auto simp: mat_roi_def)
    from extract_original_area_copy [OF hv nc this] True show ?thesis
      by (simp add: clone_def mat_empty_def Let_def)
  next
    case nz: False
    with b have "mat_roi b ?r = Inr (b\<lparr>rows := rect_height ?r, cols := rect_width ?r,
        dat := sub_dat (dat b) (rect_x ?r) (rect_y ?r) (rect_width ?r) (rect_height ?r)\<rparr>)"
      by (auto simp: mat_roi_def)
    moreover from nz b have "0 < rect_width ?r" "0 < rect_height ?r" by linarith+
    ultimately show ?thesis
      using extract_original_area_copy [OF hv nc] nz
      by (simp add: clone_def mat_empty_def Let_def)
  qed
qed

text \<open>
  Claim C7, as amended. If no valid region is set, or the region has origin (0, 0) and
  exactly the width and height of the buffer, \<open>extract_original_area\<close> returns the
  buffer it was given. Otherwise, if the width and height of the stored region are
  positive, it returns a copy of the clamped region: a matrix with the width and height
  of \<open>safeRect\<close> and the pixels of the buffer inside it (the default matrix when the
  buffer is empty).
\<close>

theorem extract_original_area_result:
  "(\<not> has_valid_area t \<or>
      (rect_x (m_valid_area t) = 0 \<and> rect_y (m_valid_area t) = 0 \<and>
       rect_width (m_valid_area t) = cols b \<and> rect_height (m_valid_area t) = rows b)
    \<longrightarrow> extract_original_area t b = Inr b) \<and>
   (has_valid_area t \<and>
    \<not> (rect_x (m_valid_area t) = 0 \<and> rect_y (m_valid_area t) = 0 \<and>
       rect_width (m_valid_area t) = cols b \<and> rect_height (m_valid_area t) = rows b) \<and>
    0 < rect_width (m_valid_area t) \<and> 0 < rect_height (m_valid_area t) \<and>
    0 \<le> rows b \<and> 0 \<le> cols b
    \<longrightarrow> extract_original_area t b =
        Inr (let r = safeRect (m_valid_area t) b
             in if rect_width r = 0 \<or> rect_height r = 0 then Mat0
                else b\<lparr>rows := rect_height r, cols := rect_width r,
                       dat := sub_dat (dat b) (rect_x r) (rect_y r) (rect_width r) (rect_height r)\<rparr>))"
  using extract_original_area_same [of t b] extract_original_area_clamped [of t b]
  by blast

theorem extract_original_area_result_witness:
  "(\<not> has_valid_area (ImgTask_new gray4x4) \<and>
    extract_original_area (ImgTask_new gray4x4) gray4x4 = Inr gray4x4) \<and>
   (has_valid_area padded_task \<and>
    \<not> (rect_x (m_valid_area padded_task) = 0 \<and> rect_y (m_valid_area padded_task) = 0 \<and>
       rect_width (m_valid_area padded_task) = cols gray4x4 \<and>
       rect_height (m_valid_area padded_task) = rows gray4x4) \<and>
    0 < rect_width (m_valid_area padded_task) \<and> 0 < rect_height (m_valid_area padded_task) \<and>
    0 \<le> rows gray4x4 \<and> 0 \<le> cols gray4x4 \<and>
    extract_original_area padded_task gray4x4 = Inr gray2x2)"
  using extract_original_area_result [of "ImgTask_new gray4x4" gray4x4]
        extract_original_area_result [of padded_task gray4x4]
  by (simp add: padded_task_def ImgTask_new_def gray4x4_def gray2x2_def mkRect_def
      has_valid_area_def safeRect_simps sub_dat_def)

text \<open>
  Claim C7 as stated fails: after \<open>limit_valid_area\<close> with the rectangle (1, 1, 2, 2) on a
  task whose region is unset, the stored region is (1, 1, -1, -1). It counts as set, it
  is not the whole 4 x 4 buffer, and \<open>extract_original_area\<close> returns no copy: the
  sub-matrix constructor raises.
\<close>

theorem extract_original_area_negative_extent:
  "has_valid_area (limit_valid_area (ImgTask_new gray4x4) (mkRect 1 1 2 2)) \<and>
   m_valid_area (limit_valid_area (ImgTask_new gray4x4) (mkRect 1 1 2 2)) = mkRect 1 1 (- 1) (- 1) \<and>
   isl (extract_original_area (limit_valid_area (ImgTask_new gray4x4) (mkRect 1 1 2 2)) gray4x4)"
  by (simp add: limit_valid_area_def wrap32_def ImgTask_new_def gray4x4_def mkRect_def
      has_valid_area_def extract_original_area_def safeRect_simps mat_roi_def)

lemma rect_points_empty_iff:
  "rect_points r = {} \<longleftrightarrow> rect_width r \<le> 0 \<or> rect_height r \<le> 0"
proof
  assume e: "rect_points r = {}"
  show "rect_width r \<le> 0 \<or> rect_height r \<le> 0"
  proof (rule ccontr)
    assume "\<not> (rect_width r \<le> 0 \<or> rect_height r \<le> 0)"
    then have "(rect_x r, rect_y r) \<in> rect_points r"
      by (simp add: rect_points_def)
    with e show False by simp
  qed
next
  assume "rect_width r \<le> 0 \<or> rect_height r \<le> 0"
  then show "rect_points r = {}"
    by (auto simp: rect_points_def)
qed

lemma wrap32_id: "int32_range v \<Longrightarrow> wrap32 v = v"
  by (simp add: int32_range_def wrap32_def)

text \<open>Without overflow the stored rectangle runs from the larger origin to the smaller far corner.\<close>

lemma limit_valid_area_stored:
  assumes "limit_valid_area_in_range (m_valid_area t) other"
  shows "m_valid_area (limit_valid_area t other) =
     mkRect (max (rect_x (m_valid_area t)) (rect_x other))
            (max (rect_y (m_valid_area t)) (rect_y other))
            (min (rect_x (m_valid_area t) + rect_width (m_valid_area t)) (rect_x other + rect_width other)
               - max (rect_x (m_valid_area t)) (rect_x other))
            (min (rect_y (m_valid_area t) + rect_height (m_valid_area t)) (rect_y other + rect_height other)
               - max (rect_y (m_valid_area t)) (rect_y other))"
  using assms
  by (simp add: limit_valid_area_def limit_valid_area_in_range_def Let_def wrap32_id)

lemma limit_valid_area_stored_points:
  assumes "limit_valid_area_in_range (m_valid_area t) other"
  shows "rect_points (m_valid_area (limit_valid_area t other)) =
     rect_points (m_valid_area t) \<inter> rect_points other"
  unfolding limit_valid_area_stored [OF assms]
  by (auto simp: rect_points_def mkRect_def)

lemma valid_area_set: "has_valid_area t \<Longrightarrow> valid_area t = m_valid_area t"
  by (simp add: valid_area_def)

text \<open>
  Claim C4, as amended. Let the valid region be set, and let no addition and no
  subtraction of \<open>limit_valid_area\<close> leave the range of \<open>int\<close>. If the valid region and
  the argument have a pixel in common, the valid region is set afterwards. Whenever the
  valid region is set afterwards (the stored width and height are not zero),
  \<open>valid_area\<close> returns the rectangle from the larger of the two origins to the smaller
  of the two far corners, and its pixels are exactly the pixels common to the valid
  region before and the argument: none when the two are disjoint.
\<close>

theorem limit_valid_area_intersection:
  assumes st: "has_valid_area t"
      and rng: "limit_valid_area_in_range (m_valid_area t) other"
  shows "(rect_points (valid_area t) \<inter> rect_points other \<noteq> {} \<longrightarrow>
            has_valid_area (limit_valid_area t other)) \<and>
         (has_valid_area (limit_valid_area t other) \<longrightarrow>
            valid_area (limit_valid_area t other) =
              mkRect (max (rect_x (valid_area t)) (rect_x other))
                     (max (rect_y (valid_area t)) (rect_y other))
                     (min (rect_x (valid_area t) + rect_width (valid_area t)) (rect_x other + rect_width other)
                        - max (rect_x (valid_area t)) (rect_x other))
                     (min (rect_y (valid_area t) + rect_height (valid_area t)) (rect_y other + rect_height other)
                        - max (rect_y (valid_area t)) (rect_y other)) \<and>
            rect_points (valid_area (limit_valid_area t other)) =
              rect_points (valid_area t) \<inter> rect_points other)"
proof (intro conjI impI)
  assume ne: "rect_points (valid_area t) \<inter> rect_points other \<noteq> {}"
  then have "rect_points (m_valid_area (limit_valid_area t other)) \<noteq> {}"
    unfolding limit_valid_area_stored_points [OF rng] valid_area_set [OF st] .
  then have "\<not> (rect_width (m_valid_area (limit_valid_area t other)) \<le> 0 \<or>
               rect_height (m_valid_area (limit_valid_area t other)) \<le> 0)"
    unfolding rect_points_empty_iff .
  then show "has_valid_area (limit_valid_area t other)"
    by (simp add: has_valid_area_def)
next
  assume hv: "has_valid_area (limit_valid_area t other)"
  show "valid_area (limit_valid_area t other) =
              mkRect (max (rect_x (valid_area t)) (rect_x other))
                     (max (rect_y (valid_area t)) (rect_y other))
                     (min (rect_x (valid_area t) + rect_width (valid_area t)) (rect_x other + rect_width other)
                        - max (rect_x (valid_area t)) (rect_x other))
                     (min (rect_y (valid_area t) + rect_height (valid_area t)) (rect_y other + rect_height other)
                        - max (rect_y (valid_area t)) (rect_y other))"
    unfolding valid_area_set [OF hv] valid_area_set [OF st]
    by (rule limit_valid_area_stored [OF rng])
next
  assume hv: "has_valid_area (limit_valid_area t other)"
  show "rect_points (valid_area (limit_valid_area t other)) =
              rect_points (valid_area t) \<inter> rect_points other"
    unfolding valid_area_set [OF hv] valid_area_set [OF st]
    by (rule limit_valid_area_stored_points [OF rng])
qed

theorem limit_valid_area_intersection_witness:
  "has_valid_area padded_task \<and>
   limit_valid_area_in_range (m_valid_area padded_task) (mkRect 2 2 5 5) \<and>
   rect_points (valid_area padded_task) \<inter> rect_points (mkRect 2 2 5 5) \<noteq> {} \<and>
   has_valid_area (limit_valid_area padded_task (mkRect 2 2 5 5)) \<and>
   valid_area (limit_valid_area padded_task (mkRect 2 2 5 5)) = mkRect 2 2 1 1 \<and>
   rect_points (valid_area (limit_valid_area padded_task (mkRect 2 2 5 5))) =
     rect_points (valid_area padded_task) \<inter> rect_points (mkRect 2 2 5 5) \<and>
   limit_valid_area_in_range (m_valid_area padded_task) (mkRect 10 10 2 2) \<and>
   has_valid_area (limit_valid_area padded_task (mkRect 10 10 2 2)) \<and>
   valid_area (limit_valid_area padded_task (mkRect 10 10 2 2)) = mkRect 10 10 (- 7) (- 7) \<and>
   rect_points (valid_area (limit_valid_area padded_task (mkRect 10 10 2 2))) =
     rect_points (valid_area padded_task) \<inter> rect_points (mkRect 10 10 2 2)"
proof -
  have st: "has_valid_area padded_task"
    by (simp add: padded_task_def ImgTask_new_def has_valid_area_def mkRect_def)
  have va: "valid_area padded_task = mkRect 1 1 2 2" "m_valid_area padded_task = mkRect 1 1 2 2"
    by (simp_all add: padded_task_def ImgTask_new_def valid_area_def has_valid_area_def mkRect_def)
  have r1: "limit_valid_area_in_range (m_valid_area padded_task) (mkRect 2 2 5 5)"
    and r2: "limit_valid_area_in_range (m_valid_area padded_task) (mkRect 10 10 2 2)"
    by (simp_all add: va limit_valid_area_in_range_def int32_range_def mkRect_def)
  have "(2, 2) \<in> rect_points (valid_area padded_task) \<inter> rect_points (mkRect 2 2 5 5)"
    by (simp add: va rect_points_def mkRect_def)
  then have ne: "rect_points (valid_area padded_task) \<inter> rect_points (mkRect 2 2 5 5) \<noteq> {}"
    by blast
  have h2: "has_valid_area (limit_valid_area padded_task (mkRect 10 10 2 2))"
    by (simp add: limit_valid_area_def wrap32_def va has_valid_area_def mkRect_def)
  note a = limit_valid_area_intersection [OF st r1]
  note b = limit_valid_area_intersection [OF st r2]
  from a ne have h1: "has_valid_area (limit_valid_area padded_task (mkRect 2 2 5 5))"
    by blast
  from a h1 have a1: "valid_area (limit_valid_area padded_task (mkRect 2 2 5 5)) = mkRect 2 2 1 1"
    by (simp add: va mkRect_def)
  from a h1 have a2: "rect_points (valid_area (limit_valid_area padded_task (mkRect 2 2 5 5))) =
     rect_points (valid_area padded_task) \<inter> rect_points (mkRect 2 2 5 5)"
    by blast
  from b h2 have b1: "valid_area (limit_valid_area padded_task (mkRect 10 10 2 2)) = mkRect 10 10 (- 7) (- 7)"
    by (simp add: va mkRect_def)
  from b h2 have b2: "rect_points (valid_area (limit_valid_area padded_task (mkRect 10 10 2 2))) =
     rect_points (valid_area padded_task) \<inter> rect_points (mkRect 10 10 2 2)"
    by blast
  from st r1 ne h1 a1 a2 r2 h2 b1 b2 show ?thesis by blast
qed

text \<open>
  Claim C4 as stated fails in three ways. With the valid region unset on the 4 x 4
  image, the valid region is the whole buffer, whose intersection with (1, 1, 2, 2) holds
  the pixel (1, 1); \<open>limit_valid_area\<close> stores (1, 1, -1, -1), which holds no pixel. The
  regions (1, 1, 2, 2) and (3, 1, 2, 2) touch and have no pixel in common;
  \<open>limit_valid_area\<close> stores the width 0, and \<open>valid_area\<close> then returns the whole
  buffer (0, 0, 4, 4). For the region (2147483600, 0, 100, 10) and the argument
  (0, 0, 2147483647, 10) the sum of origin and width leaves the range of \<open>int\<close>; the
  stored width is 100, and the pixel (2147483647, 0) of the stored region is not in the
  argument.
\<close>

theorem limit_valid_area_unset_counterexample:
  "\<not> has_valid_area (ImgTask_new gray4x4) \<and>
   valid_area (ImgTask_new gray4x4) = mkRect 0 0 4 4 \<and>
   m_valid_area (limit_valid_area (ImgTask_new gray4x4) (mkRect 1 1 2 2)) = mkRect 1 1 (- 1) (- 1) \<and>
   (1, 1) \<in> rect_points (valid_area (ImgTask_new gray4x4)) \<inter> rect_points (mkRect 1 1 2 2) \<and>
   (1, 1) \<notin> rect_points (valid_area (limit_valid_area (ImgTask_new gray4x4) (mkRect 1 1 2 2))) \<and>
   valid_area padded_task = mkRect 1 1 2 2 \<and>
   m_valid_area (limit_valid_area padded_task (mkRect 3 1 2 2)) = mkRect 3 1 0 2 \<and>
   valid_area (limit_valid_area padded_task (mkRect 3 1 2 2)) = mkRect 0 0 4 4 \<and>
   (0, 0) \<in> rect_points (valid_area (limit_valid_area padded_task (mkRect 3 1 2 2))) \<and>
   (0, 0) \<notin> rect_points (valid_area padded_task) \<inter> rect_points (mkRect 3 1 2 2) \<and>
   valid_area wide_task = mkRect 2147483600 0 100 10 \<and>
   valid_area (limit_valid_area wide_task (mkRect 0 0 2147483647 10)) = mkRect 2147483600 0 100 10 \<and>
   (2147483647, 0) \<in> rect_points (valid_area (limit_valid_area wide_task (mkRect 0 0 2147483647 10))) \<and>
   (2147483647, 0) \<notin> rect_points (valid_area wide_task) \<inter> rect_points (mkRect 0 0 2147483647 10)"
  by (simp add: limit_valid_area_def wrap32_def ImgTask_new_def padded_task_def wide_task_def
      gray4x4_def mkRect_def has_valid_area_def valid_area_def rect_points_def)

section \<open>Properties of Task_LoadImg::ready_to_run\<close>

text \<open>
  Claim C6. \<open>Task_LoadImg::ready_to_run\<close> returns true only if the dependency check of the
  base class holds; and when a positive wait window is configured and has not elapsed,
  it returns false unless the file can be opened for reading.
\<close>

theorem Task_LoadImg_ready_to_run_stricter:
  "(Task_LoadImg_ready_to_run completed w t \<longrightarrow> Task_ready_to_run completed t) \<and>
   (0 < m_wait_images t \<and> now w < m_wait_images_until t \<and> \<not> good_at w (m_filename t) (now w)
      \<longrightarrow> \<not> Task_LoadImg_ready_to_run completed w t)"
  by (simp add: Task_LoadImg_ready_to_run_def)

theorem Task_LoadImg_ready_to_run_stricter_witness:
  "(Task_LoadImg_ready_to_run (\<lambda>p. p = 5) world0 eager_task \<and>
    Task_ready_to_run (\<lambda>p. p = 5) eager_task) \<and>
   (0 < m_wait_images waiting_task \<and> now world0 < m_wait_images_until waiting_task \<and>
    \<not> good_at world0 (m_filename waiting_task) (now world0) \<and>
    \<not> Task_LoadImg_ready_to_run (\<lambda>p. True) world0 waiting_task)"
  using Task_LoadImg_ready_to_run_stricter [of "\<lambda>p. p = 5" world0 eager_task]
        Task_LoadImg_ready_to_run_stricter [of "\<lambda>p. True" world0 waiting_task]
  by (simp add: Task_LoadImg_ready_to_run_def Task_ready_to_run_def eager_task_def waiting_task_def
      Task_LoadImg_file_def Task_new_def world0_def to_int_def)

section \<open>Properties of Task_SaveImg::task\<close>


text \<open>
  The valid region of a task that was just constructed is the default rectangle, so its
  own \<open>has_valid_area\<close> is false: without cropping, the first run of \<open>task\<close> takes the
  branch that passes the buffer and the valid region of the input through, whatever the
  valid region of the input is.
\<close>

lemma Task_SaveImg_crop_new_nocrop:
  "Task_SaveImg_crop heap (Task_SaveImg_new heap filename input alphamask jpgquality True) =
     Inr ((Task_SaveImg_new heap filename input alphamask jpgquality True)
            \<lparr>m_result := img (heap input), m_valid_area := valid_area (heap input)\<rparr>)"
  by (simp add: Task_SaveImg_crop_def Task_SaveImg_new_def has_valid_area_def mkRect_def Let_def)

text \<open>
  Claim C1 fails on the code. The input at address 0 has the 4 x 4 buffer \<open>gray4x4\<close> and
  the valid region (1, 1, 2, 2), strictly smaller than the buffer; the pixels of that
  region are \<open>gray2x2\<close>. A \<open>Task_SaveImg\<close> constructed with \<open>nocrop = true\<close> returns the
  whole 4 x 4 buffer, padding included, with the valid region (1, 1, 2, 2); the claim
  asks for the 2 x 2 region \<open>gray2x2\<close> with the valid region (0, 0, 2, 2).
\<close>

theorem Task_SaveImg_nocrop_keeps_padding:
  "img (heap1 0) = gray4x4 \<and> valid_area (heap1 0) = mkRect 1 1 2 2 \<and>
   extract_original_area (heap1 0) (img (heap1 0)) = Inr gray2x2 \<and>
   gray4x4 \<noteq> gray2x2 \<and>
   m_nocrop save_memory_nocrop \<and>
   Task_SaveImg_task (\<lambda>d v. v) 0 heap1 save_memory_nocrop world0 =
     (Inr (save_memory_nocrop\<lparr>m_result := gray4x4, m_valid_area := mkRect 1 1 2 2,
                               m_input := None, m_alphamask := None\<rparr>), world0)"
proof -
  have a: "img (heap1 0) = gray4x4" "valid_area (heap1 0) = mkRect 1 1 2 2"
    by (simp_all add: heap1_def padded_task_def ImgTask_new_def img_def valid_area_def
        has_valid_area_def mkRect_def)
  have b: "extract_original_area (heap1 0) (img (heap1 0)) = Inr gray2x2"
    by (simp add: heap1_def padded_task_def ImgTask_new_def img_def gray4x4_def gray2x2_def
        mkRect_def has_valid_area_def extract_original_area_def safeRect_simps mat_roi_def
        sub_dat_def clone_def mat_empty_def)
  have c: "gray4x4 \<noteq> gray2x2"
    by (simp add: gray4x4_def gray2x2_def)
  have d: "m_nocrop save_memory_nocrop"
    by (simp add: save_memory_nocrop_def Task_SaveImg_new_def)
  have e: "Task_SaveImg_task (\<lambda>d v. v) 0 heap1 save_memory_nocrop world0 =
     (Inr (save_memory_nocrop\<lparr>m_result := gray4x4, m_valid_area := mkRect 1 1 2 2,
                               m_input := None, m_alphamask := None\<rparr>), world0)"
    by (simp add: Task_SaveImg_task_def Task_SaveImg_crop_def Task_SaveImg_complex_def
        Task_SaveImg_alpha_def save_memory_nocrop_def Task_SaveImg_new_def
        heap1_def padded_task_def ImgTask_new_def Task_new_def gray4x4_def
        mkRect_def has_valid_area_def valid_area_def img_def Let_def)
  from a b c d e show ?thesis by simp
qed



section \<open>Properties of Task_LoadImg::task\<close>

text \<open>
  The loop runs \<open>n\<close> times when the image is empty and the deadline is ahead at the
  start of each of the \<open>n\<close> rounds, and round \<open>n\<close> ends with an image or at the
  deadline; round \<open>k\<close> decodes at \<open>100 k\<close> ms after the start.
\<close>

lemma retry_imread_steps:
  assumes "\<forall>k<n. mat_empty (if k = 0 then res else imread_at w path (now w + 100 * int k)) \<and>
                 now w + 100 * int k < until"
      and "\<not> mat_empty (if n = 0 then res else imread_at w path (now w + 100 * int n)) \<or>
           until \<le> now w + 100 * int n"
  shows "retry_imread path until res w =
           ((if n = 0 then res else imread_at w path (now w + 100 * int n)),
            w\<lparr>now := now w + 100 * int n,
              imread_log := imread_log w @ map (\<lambda>k. (path, now w + 100 * int k)) [1..<Suc n]\<rparr>)"
  using assms
proof (induction n arbitrary: res w)
  case 0
  then show ?case by (auto simp: retry_imread.simps [of path until res w])
next
  case (Suc n)
  let ?res' = "imread_at w path (now w + 100)"
  let ?w' = "w\<lparr>now := now w + 100, imread_log := imread_log w @ [(path, now w + 100)]\<rparr>"
  from Suc.prems(1) [rule_format, of 0] have first: "mat_empty res" "now w < until"
    by simp_all
  have step: "retry_imread path until res w = retry_imread path until ?res' ?w'"
    using first by (simp add: retry_imread.simps [of path until res w] imread_def sleep_for_def)
  have a: "\<forall>k<n. mat_empty (if k = 0 then ?res' else imread_at ?w' path (now ?w' + 100 * int k)) \<and>
                 now ?w' + 100 * int k < until"
  proof (intro allI impI)
    fix k assume "k < n"
    then have "Suc k < Suc n" by simp
    from Suc.prems(1) [rule_format, OF this]
    have "mat_empty (imread_at w path (now w + 100 * int (Suc k))) \<and>
        now w + 100 * int (Suc k) < until"
      by simp
    then show "mat_empty (if k = 0 then ?res' else imread_at ?w' path (now ?w' + 100 * int k)) \<and>
                 now ?w' + 100 * int k < until"
      by (auto simp: algebra_simps)
  qed
  have b: "\<not> mat_empty (if n = 0 then ?res' else imread_at ?w' path (now ?w' + 100 * int n)) \<or>
           until \<le> now ?w' + 100 * int n"
    using Suc.prems(2) by (auto simp: algebra_simps)
  have ih: "retry_imread path until ?res' ?w' =
           ((if n = 0 then ?res' else imread_at ?w' path (now ?w' + 100 * int n)),
            ?w'\<lparr>now := now ?w' + 100 * int n,
              imread_log := imread_log ?w' @ map (\<lambda>k. (path, now ?w' + 100 * int k)) [1..<Suc n]\<rparr>)"
    by (rule Suc.IH [OF a b])
  have r: "(if n = 0 then ?res' else imread_at ?w' path (now ?w' + 100 * int n)) =
      imread_at w path (now w + 100 * int (Suc n))"
    by (auto simp: algebra_simps)
  define ks where "ks = [1..<Suc n]"
  have ks: "[1..<Suc (Suc n)] = 1 # map Suc ks"
    unfolding ks_def by (simp only: map_Suc_upt) (simp add: upt_conv_Cons)
  have l: "imread_log ?w' @ map (\<lambda>k. (path, now ?w' + 100 * int k)) ks =
      imread_log w @ map (\<lambda>k. (path, now w + 100 * int k)) [1..<Suc (Suc n)]"
    unfolding ks by (simp add: comp_def algebra_simps)
  have "retry_imread path until ?res' ?w' =
           (imread_at w path (now w + 100 * int (Suc n)),
            w\<lparr>now := now w + 100 * int (Suc n),
              imread_log := imread_log w @ map (\<lambda>k. (path, now w + 100 * int k)) [1..<Suc (Suc n)]\<rparr>)"
    unfolding ih r l [unfolded ks_def] by (simp add: algebra_simps)
  with step show ?case by simp
qed




lemma Task_LoadImg_decode_steps:
  assumes e: "mat_empty (m_result t)"
      and a: "\<forall>k<n. mat_empty (imread_at w (m_filename t) (now w + 100 * int k)) \<and>
                 now w + 100 * int k < m_wait_images_until t"
      and b: "\<not> mat_empty (imread_at w (m_filename t) (now w + 100 * int n)) \<or>
           m_wait_images_until t \<le> now w + 100 * int n"
  shows "Task_LoadImg_decode t w =
           (imread_at w (m_filename t) (now w + 100 * int n),
            w\<lparr>now := now w + 100 * int n,
              imread_log := imread_log w @
                map (\<lambda>k. (m_filename t, now w + 100 * int k)) [0..<Suc n]\<rparr>)"
proof -
  let ?path = "m_filename t"
  let ?w0 = "w\<lparr>imread_log := imread_log w @ [(?path, now w)]\<rparr>"
  let ?res = "imread_at w ?path (now w)"
  have d: "Task_LoadImg_decode t w = retry_imread ?path (m_wait_images_until t) ?res ?w0"
    using e by (simp add: Task_LoadImg_decode_def imread_def)
  have a': "\<forall>k<n. mat_empty (if k = 0 then ?res else imread_at ?w0 ?path (now ?w0 + 100 * int k)) \<and>
                 now ?w0 + 100 * int k < m_wait_images_until t"
    using a by auto
  have b': "\<not> mat_empty (if n = 0 then ?res else imread_at ?w0 ?path (now ?w0 + 100 * int n)) \<or>
           m_wait_images_until t \<le> now ?w0 + 100 * int n"
    using b by auto
  have r: "(if n = 0 then ?res else imread_at ?w0 ?path (now ?w0 + 100 * int n)) =
      imread_at w ?path (now w + 100 * int n)"
    by auto
  define ks where "ks = [1..<Suc n]"
  have ks: "[0..<Suc n] = 0 # ks"
    unfolding ks_def by (simp add: upt_conv_Cons)
  have "retry_imread ?path (m_wait_images_until t) ?res ?w0 =
          (imread_at w ?path (now w + 100 * int n),
           ?w0\<lparr>now := now ?w0 + 100 * int n,
              imread_log := imread_log ?w0 @ map (\<lambda>k. (?path, now ?w0 + 100 * int k)) ks\<rparr>)"
    unfolding ks_def using retry_imread_steps [OF a' b'] unfolding r .
  then show ?thesis
    unfolding d ks by simp
qed





section \<open>Padding in Task_LoadImg::task\<close>

text \<open>For a difference that is not negative, the truncating division is the usual one.\<close>

lemma sdiv_2_nonneg: "0 \<le> (a::int) \<Longrightarrow> a sdiv 2 = a div 2"
  by (simp add: signed_divide_int_def sgn_if)

lemma borderInterpolate_inside: "0 \<le> p \<Longrightarrow> p < len \<Longrightarrow> borderInterpolate p len = p"
  by (simp add: borderInterpolate.simps [of p len])

text \<open>A reflected position lies inside the source.\<close>

lemma borderInterpolate_range:
  "0 < len \<Longrightarrow> 0 \<le> borderInterpolate p len \<and> borderInterpolate p len < len"
proof (induction p len rule: borderInterpolate.induct)
  case (1 p len)
  show ?case
  proof (cases "0 \<le> p \<and> p < len")
    case True
    then show ?thesis by (simp add: borderInterpolate_inside)
  next
    case False
    show ?thesis
    proof (cases "len \<le> 1")
      case True
      with False "1.prems" show ?thesis
        by (simp add: borderInterpolate.simps [of p len])
    next
      case big: False
      with False "1.IH" "1.prems"
      have "0 \<le> borderInterpolate (if p < 0 then - p - 1 else len - 1 - (p - len)) len \<and>
            borderInterpolate (if p < 0 then - p - 1 else len - 1 - (p - len)) len < len"
        by simp
      moreover have "borderInterpolate p len =
          borderInterpolate (if p < 0 then - p - 1 else len - 1 - (p - len)) len"
        using False big by (auto simp: borderInterpolate.simps [of p len])
      ultimately show ?thesis by simp
    qed
  qed
qed

lemma wf_mat_length: "wf_mat m \<Longrightarrow> length (dat m) = nat (rows m)"
  by (auto simp: wf_mat_def)

lemma wf_mat_row_length:
  assumes "wf_mat m" and "i < nat (rows m)"
  shows "length (dat m ! i) = nat (cols m)"
proof -
  from assms have "i < length (dat m)"
    by (simp add: wf_mat_length)
  moreover from assms(1) have "\<forall>n<length (dat m). int (length (dat m ! n)) = cols m"
    by (simp add: wf_mat_def list_all_length)
  ultimately have "int (length (dat m ! i)) = cols m" by blast
  then show ?thesis by simp
qed

lemma wf_mat_pixel_length:
  assumes "wf_mat m" and "i < nat (rows m)" and "j < nat (cols m)"
  shows "length (dat m ! i ! j) = channels m"
proof -
  from assms have i: "i < length (dat m)"
    by (simp add: wf_mat_length)
  from assms have j: "j < length (dat m ! i)"
    by (simp add: wf_mat_row_length)
  from assms(1) have "\<forall>n<length (dat m). \<forall>k<length (dat m ! n). length (dat m ! n ! k) = channels m"
    by (simp add: wf_mat_def list_all_length)
  with i j show ?thesis by blast
qed

lemma reflect_dat_length: "length (reflect_dat src btop bleft nrows ncols) = nrows"
  by (simp add: reflect_dat_def)

lemma reflect_dat_row:
  "i < nrows \<Longrightarrow> reflect_dat src btop bleft nrows ncols ! i =
     map (\<lambda>j. dat src ! nat (borderInterpolate (int i - btop) (rows src))
                       ! nat (borderInterpolate (int j - bleft) (cols src))) [0..<ncols]"
  by (simp add: reflect_dat_def)

lemma reflect_dat_nth:
  "i < nrows \<Longrightarrow> j < ncols \<Longrightarrow> reflect_dat src btop bleft nrows ncols ! i ! j =
     dat src ! nat (borderInterpolate (int i - btop) (rows src))
             ! nat (borderInterpolate (int j - bleft) (cols src))"
  by (simp add: reflect_dat_row)

text \<open>Inside its borders a padded matrix holds the source, pixel for pixel.\<close>

lemma sub_dat_reflect_dat:
  assumes wf: "wf_mat src" and t: "0 \<le> btop" and l: "0 \<le> bleft"
      and r: "nat btop + nat (rows src) \<le> nrows" and c: "nat bleft + nat (cols src) \<le> ncols"
  shows "sub_dat (reflect_dat src btop bleft nrows ncols) bleft btop (cols src) (rows src) = dat src"
proof (rule nth_equalityI)
  show len: "length (sub_dat (reflect_dat src btop bleft nrows ncols) bleft btop (cols src) (rows src)) =
      length (dat src)"
    using r by (simp add: sub_dat_def reflect_dat_length wf_mat_length [OF wf])
  fix i
  assume "i < length (sub_dat (reflect_dat src btop bleft nrows ncols) bleft btop (cols src) (rows src))"
  with len have i: "i < nat (rows src)"
    by (simp add: wf_mat_length [OF wf])
  with r have i': "nat btop + i < nrows" by simp
  have row: "sub_dat (reflect_dat src btop bleft nrows ncols) bleft btop (cols src) (rows src) ! i =
      take (nat (cols src)) (drop (nat bleft) (reflect_dat src btop bleft nrows ncols ! (nat btop + i)))"
  proof -
    have "i < length (take (nat (rows src)) (drop (nat btop) (reflect_dat src btop bleft nrows ncols)))"
      using i i' by (simp add: reflect_dat_length)
    moreover have "take (nat (rows src)) (drop (nat btop) (reflect_dat src btop bleft nrows ncols)) ! i =
        reflect_dat src btop bleft nrows ncols ! (nat btop + i)"
      using i i' by (simp add: reflect_dat_length)
    ultimately show ?thesis
      unfolding sub_dat_def by (simp only: nth_map)
  qed
  show "sub_dat (reflect_dat src btop bleft nrows ncols) bleft btop (cols src) (rows src) ! i = dat src ! i"
  proof (rule nth_equalityI)
    show len2: "length (sub_dat (reflect_dat src btop bleft nrows ncols) bleft btop (cols src) (rows src) ! i) =
        length (dat src ! i)"
      unfolding row using c i' by (simp add: reflect_dat_row wf_mat_row_length [OF wf i])
    fix j
    assume "j < length (sub_dat (reflect_dat src btop bleft nrows ncols) bleft btop (cols src) (rows src) ! i)"
    with len2 have j: "j < nat (cols src)"
      by (simp add: wf_mat_row_length [OF wf i])
    with c have j': "nat bleft + j < ncols" by simp
    have bi: "borderInterpolate (int (nat btop + i) - btop) (rows src) = int i"
      using t i by (simp add: borderInterpolate_inside)
    have bj: "borderInterpolate (int (nat bleft + j) - bleft) (cols src) = int j"
      using l j by (simp add: borderInterpolate_inside)
    have "sub_dat (reflect_dat src btop bleft nrows ncols) bleft btop (cols src) (rows src) ! i ! j =
        reflect_dat src btop bleft nrows ncols ! (nat btop + i) ! (nat bleft + j)"
      unfolding row using j j' i' by (simp add: reflect_dat_row)
    also have "\<dots> = dat src ! i ! j"
      unfolding reflect_dat_nth [OF i' j'] bi bj by simp
    finally show "sub_dat (reflect_dat src btop bleft nrows ncols) bleft btop (cols src) (rows src) ! i ! j =
        dat src ! i ! j" .
  qed
qed

lemma wf_mat_reflect:
  assumes wf: "wf_mat src" and ne: "\<not> mat_empty src" and "0 \<le> nr" and "0 \<le> nc"
  shows "wf_mat (src\<lparr>rows := nr, cols := nc, dat := reflect_dat src btop bleft (nat nr) (nat nc)\<rparr>)"
proof -
  from ne have pos: "0 < rows src" "0 < cols src"
    by (simp_all add: mat_empty_def)
  have px: "length (dat src ! nat (borderInterpolate p (rows src)) ! nat (borderInterpolate q (cols src))) =
      channels src" for p q
  proof -
    have "nat (borderInterpolate p (rows src)) < nat (rows src)"
      using borderInterpolate_range [OF pos(1), of p] by simp
    moreover have "nat (borderInterpolate q (cols src)) < nat (cols src)"
      using borderInterpolate_range [OF pos(2), of q] by simp
    ultimately show ?thesis by (rule wf_mat_pixel_length [OF wf])
  qed
  show ?thesis
    using assms(3,4) by (simp add: wf_mat_def reflect_dat_def list_all_iff px)
qed

lemma Size_eq_iff: "(a :: Size) = b \<longleftrightarrow> size_width a = size_width b \<and> size_height a = size_height b"
  by auto

lemma copyMakeBorder_pads:
  assumes "0 \<le> T" and "0 \<le> B" and "0 \<le> L" and "0 \<le> R"
      and "\<not> (T = 0 \<and> L = 0 \<and> B = 0 \<and> R = 0)" and "\<not> mat_empty src"
  shows "copyMakeBorder src T B L R =
      Inr (src\<lparr>rows := rows src + T + B, cols := cols src + L + R,
                 dat := reflect_dat src T L (nat (rows src + T + B)) (nat (cols src + L + R))\<rparr>)"
  using assms unfolding copyMakeBorder_def by auto

lemma Task_LoadImg_expand_pad:
  assumes wf: "wf_mat res" and ne: "\<not> mat_empty res"
      and ex: "snd (levels_for_size (mat_size res)) = expanded"
      and cw: "cols res \<le> size_width expanded" and rh: "rows res \<le> size_height expanded"
      and neq: "expanded \<noteq> mat_size res"
  shows "Task_LoadImg_expand levels_for_size t res =
     Inr (t\<lparr>m_result := res\<lparr>rows := size_height expanded, cols := size_width expanded,
                 dat := reflect_dat res ((size_height expanded - rows res) sdiv 2)
                          ((size_width expanded - cols res) sdiv 2)
                          (nat (size_height expanded)) (nat (size_width expanded))\<rparr>,
             m_orig_size := mat_size res,
             m_valid_area := mkRect ((size_width expanded - cols res) sdiv 2)
                               ((size_height expanded - rows res) sdiv 2) (cols res) (rows res),
             m_original_image := res\<rparr>)"
proof -
  let ?ex = "size_width expanded - cols res"
  let ?ey = "size_height expanded - rows res"
  from ne have pos: "0 < rows res" "0 < cols res"
    by (simp_all add: mat_empty_def)
  have nn: "0 \<le> ?ex" "0 \<le> ?ey" using cw rh by simp_all
  have half: "?ex sdiv 2 = ?ex div 2" "?ey sdiv 2 = ?ey div 2"
    using nn by (simp_all add: sdiv_2_nonneg)
  have b: "0 \<le> ?ey sdiv 2" "0 \<le> ?ey - ?ey sdiv 2" "0 \<le> ?ex sdiv 2" "0 \<le> ?ex - ?ex sdiv 2"
    unfolding half using nn by linarith+
  from neq have "?ex \<noteq> 0 \<or> ?ey \<noteq> 0"
    by (auto simp: Size_eq_iff mat_size_def)
  then have nz: "\<not> (?ey sdiv 2 = 0 \<and> ?ex sdiv 2 = 0 \<and> ?ey - ?ey sdiv 2 = 0 \<and> ?ex - ?ex sdiv 2 = 0)"
    by auto
  have sums: "rows res + ?ey sdiv 2 + (?ey - ?ey sdiv 2) = size_height expanded"
    "cols res + ?ex sdiv 2 + (?ex - ?ex sdiv 2) = size_width expanded"
    by simp_all
  have cmb: "copyMakeBorder res (?ey sdiv 2) (?ey - ?ey sdiv 2) (?ex sdiv 2) (?ex - ?ex sdiv 2) =
      Inr (res\<lparr>rows := size_height expanded, cols := size_width expanded,
                 dat := reflect_dat res (?ey sdiv 2) (?ex sdiv 2)
                          (nat (size_height expanded)) (nat (size_width expanded))\<rparr>)"
    using copyMakeBorder_pads [OF b nz ne] unfolding sums .
  have sz: "\<not> (size_height expanded < 0 \<or> size_width expanded < 0)"
    using pos cw rh by simp
  show ?thesis
    unfolding Task_LoadImg_expand_def Let_def ex
    using neq sz ne by (simp add: cmb mat_size_def clone_def)
qed

lemma Task_LoadImg_decode_supplied:
  "\<not> mat_empty (m_result t) \<Longrightarrow> Task_LoadImg_decode t w = (m_result t, w)"
  by (simp add: Task_LoadImg_decode_def retry_imread.simps [of _ _ "m_result t" w])

text \<open>
  Claim C3. Let \<open>res\<close> be the decoded image, well formed and not empty, and let the
  expanded size be at least the original on both axes and differ from it. Then \<open>task\<close>
  returns; the buffer is well formed and has exactly the expanded size; the valid region
  has the origin (\<open>expand_x / 2\<close>, \<open>expand_y / 2\<close>) and the original width and height; the
  columns left of it and right of it, and the rows above it and below it, differ by at
  most one, the smaller share being on the left and on top; and the valid region holds
  the original pixels.
\<close>

theorem Task_LoadImg_task_padding:
  assumes dec: "Task_LoadImg_decode t w = (res, w')"
      and wf: "wf_mat res" and ne: "\<not> mat_empty res"
      and ex: "snd (levels_for_size (mat_size res)) = expanded"
      and cw: "cols res \<le> size_width expanded" and rh: "rows res \<le> size_height expanded"
      and neq: "expanded \<noteq> mat_size res"
  shows "\<exists>t'. Task_LoadImg_task levels_for_size t w = (Inr t', w') \<and>
           rows (m_result t') = size_height expanded \<and>
           cols (m_result t') = size_width expanded \<and>
           wf_mat (m_result t') \<and>
           m_valid_area t' = mkRect ((size_width expanded - cols res) sdiv 2)
                               ((size_height expanded - rows res) sdiv 2) (cols res) (rows res) \<and>
           0 \<le> rect_x (m_valid_area t') \<and>
           rect_x (m_valid_area t') \<le> cols (m_result t') - (rect_x (m_valid_area t') + cols res) \<and>
           cols (m_result t') - (rect_x (m_valid_area t') + cols res) \<le> rect_x (m_valid_area t') + 1 \<and>
           0 \<le> rect_y (m_valid_area t') \<and>
           rect_y (m_valid_area t') \<le> rows (m_result t') - (rect_y (m_valid_area t') + rows res) \<and>
           rows (m_result t') - (rect_y (m_valid_area t') + rows res) \<le> rect_y (m_valid_area t') + 1 \<and>
           sub_dat (dat (m_result t')) (rect_x (m_valid_area t')) (rect_y (m_valid_area t'))
             (cols res) (rows res) = dat res"
proof -
  let ?ex = "size_width expanded - cols res"
  let ?ey = "size_height expanded - rows res"
  let ?m = "res\<lparr>rows := size_height expanded, cols := size_width expanded,
                 dat := reflect_dat res (?ey sdiv 2) (?ex sdiv 2)
                          (nat (size_height expanded)) (nat (size_width expanded))\<rparr>"
  let ?t' = "t\<lparr>m_result := ?m, m_orig_size := mat_size res,
             m_valid_area := mkRect (?ex sdiv 2) (?ey sdiv 2) (cols res) (rows res),
             m_original_image := res\<rparr>"
  from ne have pos: "0 < rows res" "0 < cols res"
    by (simp_all add: mat_empty_def)
  have nn: "0 \<le> ?ex" "0 \<le> ?ey" using cw rh by simp_all
  have half: "?ex sdiv 2 = ?ex div 2" "?ey sdiv 2 = ?ey div 2"
    using nn by (simp_all add: sdiv_2_nonneg)
  have run: "Task_LoadImg_task levels_for_size t w = (Inr ?t', w')"
    unfolding Task_LoadImg_task_def dec
    using ne Task_LoadImg_expand_pad
      [where levels_for_size = levels_for_size and t = t, OF wf ne ex cw rh neq]
    by simp
  have wfm: "wf_mat ?m"
    using pos cw rh by (intro wf_mat_reflect [OF wf ne]) simp_all
  have x: "0 \<le> ?ex sdiv 2" "?ex sdiv 2 \<le> size_width expanded - (?ex sdiv 2 + cols res)"
    "size_width expanded - (?ex sdiv 2 + cols res) \<le> ?ex sdiv 2 + 1"
    unfolding half using nn by linarith+
  have y: "0 \<le> ?ey sdiv 2" "?ey sdiv 2 \<le> size_height expanded - (?ey sdiv 2 + rows res)"
    "size_height expanded - (?ey sdiv 2 + rows res) \<le> ?ey sdiv 2 + 1"
    unfolding half using nn by linarith+
  have r: "nat (?ey sdiv 2) + nat (rows res) \<le> nat (size_height expanded)"
    unfolding half using nn pos by linarith
  have c: "nat (?ex sdiv 2) + nat (cols res) \<le> nat (size_width expanded)"
    unfolding half using nn pos by linarith
  have sub: "sub_dat (reflect_dat res (?ey sdiv 2) (?ex sdiv 2)
                 (nat (size_height expanded)) (nat (size_width expanded)))
               (?ex sdiv 2) (?ey sdiv 2) (cols res) (rows res) = dat res"
    by (rule sub_dat_reflect_dat [OF wf y(1) x(1) r c])
  show ?thesis
    unfolding run using wfm x y sub by (simp add: mkRect_def)
qed

text \<open>
  Claim C2. Let \<open>res\<close> be the decoded image, well formed and not empty, and let the
  expanded size be at least the original on both axes. Then \<open>task\<close> returns, padded or
  not, and \<open>extract_original_area\<close> applied to its result gives back \<open>res\<close> itself: the
  same size, depth, channels and pixels. The copy kept in \<open>m_original_image\<close> is \<open>res\<close> too.
\<close>

theorem Task_LoadImg_task_roundtrip:
  assumes dec: "Task_LoadImg_decode t w = (res, w')"
      and wf: "wf_mat res" and ne: "\<not> mat_empty res"
      and ex: "snd (levels_for_size (mat_size res)) = expanded"
      and cw: "cols res \<le> size_width expanded" and rh: "rows res \<le> size_height expanded"
  shows "\<exists>t'. Task_LoadImg_task levels_for_size t w = (Inr t', w') \<and>
           m_original_image t' = res \<and>
           extract_original_area t' (m_result t') = Inr res"
proof (cases "expanded = mat_size res")
  case True
  let ?t' = "t\<lparr>m_result := res, m_orig_size := mat_size res,
               m_valid_area := mkRect 0 0 (cols res) (rows res), m_original_image := res\<rparr>"
  have "Task_LoadImg_expand levels_for_size t res = Inr ?t'"
    unfolding Task_LoadImg_expand_def Let_def ex using True ne by (simp add: clone_def)
  then have run: "Task_LoadImg_task levels_for_size t w = (Inr ?t', w')"
    unfolding Task_LoadImg_task_def dec using ne by simp
  have "extract_original_area ?t' (m_result ?t') = Inr res"
    by (simp add: extract_original_area_def mkRect_def)
  with run show ?thesis by simp
next
  case False
  let ?ex = "size_width expanded - cols res"
  let ?ey = "size_height expanded - rows res"
  let ?D = "reflect_dat res (?ey sdiv 2) (?ex sdiv 2)
              (nat (size_height expanded)) (nat (size_width expanded))"
  let ?m = "res\<lparr>rows := size_height expanded, cols := size_width expanded, dat := ?D\<rparr>"
  let ?va = "mkRect (?ex sdiv 2) (?ey sdiv 2) (cols res) (rows res)"
  let ?t' = "t\<lparr>m_result := ?m, m_orig_size := mat_size res,
             m_valid_area := ?va, m_original_image := res\<rparr>"
  from ne have pos: "0 < rows res" "0 < cols res"
    by (simp_all add: mat_empty_def)
  have nn: "0 \<le> ?ex" "0 \<le> ?ey" using cw rh by simp_all
  have half: "?ex sdiv 2 = ?ex div 2" "?ey sdiv 2 = ?ey div 2"
    using nn by (simp_all add: sdiv_2_nonneg)
  from False have "?ex \<noteq> 0 \<or> ?ey \<noteq> 0"
    by (auto simp: Size_eq_iff mat_size_def)
  then have nc: "\<not> (?ex sdiv 2 = 0 \<and> ?ey sdiv 2 = 0 \<and>
      cols res = size_width expanded \<and> rows res = size_height expanded)"
    by auto
  have run: "Task_LoadImg_task levels_for_size t w = (Inr ?t', w')"
    unfolding Task_LoadImg_task_def dec
    using ne Task_LoadImg_expand_pad
      [where levels_for_size = levels_for_size and t = t, OF wf ne ex cw rh False]
    by simp
  have x: "0 \<le> ?ex sdiv 2" "?ex sdiv 2 + cols res \<le> size_width expanded"
    unfolding half using nn by linarith+
  have y: "0 \<le> ?ey sdiv 2" "?ey sdiv 2 + rows res \<le> size_height expanded"
    unfolding half using nn by linarith+
  have safe: "safeRect ?va ?m = ?va"
    using x y pos by (simp add: safeRect_def mkRect_def Let_def)
  have r: "nat (?ey sdiv 2) + nat (rows res) \<le> nat (size_height expanded)"
    using y pos by linarith
  have c: "nat (?ex sdiv 2) + nat (cols res) \<le> nat (size_width expanded)"
    using x pos by linarith
  have sub: "sub_dat ?D (?ex sdiv 2) (?ey sdiv 2) (cols res) (rows res) = dat res"
    by (rule sub_dat_reflect_dat [OF wf y(1) x(1) r c])
  have roi: "mat_roi ?m ?va = Inr res"
    using x y pos by (simp add: mat_roi_def mkRect_def sub)
  have hv: "has_valid_area ?t'"
    using pos by (simp add: has_valid_area_def mkRect_def)
  have ncov: "\<not> (rect_x (m_valid_area ?t') = 0 \<and> rect_y (m_valid_area ?t') = 0 \<and>
              rect_width (m_valid_area ?t') = cols ?m \<and> rect_height (m_valid_area ?t') = rows ?m)"
    using nc by (auto simp: mkRect_def)
  have roi': "mat_roi ?m (safeRect (m_valid_area ?t') ?m) = Inr res"
    using roi safe by simp
  have "extract_original_area ?t' ?m = Inr res"
    using extract_original_area_copy [OF hv ncov roi'] ne by (simp add: clone_def)
  with run show ?thesis by simp
qed

lemma gray2x3_facts:
  "wf_mat gray2x3" "\<not> mat_empty gray2x3" "rows gray2x3 = 2" "cols gray2x3 = 3"
  "snd (levels4 (mat_size gray2x3)) = \<lparr>size_width = 4, size_height = 4\<rparr>"
  by (simp_all add: gray2x3_def wf_mat_def mat_empty_def levels4_def mat_size_def)

lemma gray2x2_facts:
  "wf_mat gray2x2" "\<not> mat_empty gray2x2" "rows gray2x2 = 2" "cols gray2x2 = 2"
  "snd (levels4 (mat_size gray2x2)) = \<lparr>size_width = 4, size_height = 4\<rparr>"
  by (simp_all add: gray2x2_def wf_mat_def mat_empty_def levels4_def mat_size_def)

lemma memory_task_decode: "Task_LoadImg_decode memory_task world0 = (gray2x3, world0)"
proof -
  have "m_result memory_task = gray2x3"
    using gray2x3_facts(2) by (simp add: memory_task_def Task_LoadImg_memory_def clone_def)
  with gray2x3_facts(2) Task_LoadImg_decode_supplied [of memory_task world0]
  show ?thesis by simp
qed

theorem Task_LoadImg_task_padding_witness:
  "Task_LoadImg_decode memory_task world0 = (gray2x3, world0) \<and>
   wf_mat gray2x3 \<and> \<not> mat_empty gray2x3 \<and>
   snd (levels4 (mat_size gray2x3)) = \<lparr>size_width = 4, size_height = 4\<rparr> \<and>
   cols gray2x3 \<le> size_width \<lparr>size_width = 4, size_height = 4\<rparr> \<and>
   rows gray2x3 \<le> size_height \<lparr>size_width = 4, size_height = 4\<rparr> \<and>
   \<lparr>size_width = 4, size_height = 4\<rparr> \<noteq> mat_size gray2x3 \<and>
   (\<exists>t'. Task_LoadImg_task levels4 memory_task world0 = (Inr t', world0) \<and>
         rows (m_result t') = 4 \<and> cols (m_result t') = 4 \<and>
         m_valid_area t' = mkRect 0 1 3 2 \<and>
         sub_dat (dat (m_result t')) 0 1 3 2 = dat gray2x3)"
proof -
  let ?e = "\<lparr>size_width = 4, size_height = 4\<rparr>"
  have cw: "cols gray2x3 \<le> size_width ?e" and rh: "rows gray2x3 \<le> size_height ?e"
    and neq: "?e \<noteq> mat_size gray2x3"
    by (simp_all add: gray2x3_facts mat_size_def)
  from Task_LoadImg_task_padding
    [where levels_for_size = levels4, OF memory_task_decode gray2x3_facts(1,2,5) cw rh neq]
  obtain t' where t': "Task_LoadImg_task levels4 memory_task world0 = (Inr t', world0)"
    "rows (m_result t') = size_height ?e" "cols (m_result t') = size_width ?e"
    "m_valid_area t' = mkRect ((size_width ?e - cols gray2x3) sdiv 2)
                               ((size_height ?e - rows gray2x3) sdiv 2) (cols gray2x3) (rows gray2x3)"
    "sub_dat (dat (m_result t')) (rect_x (m_valid_area t')) (rect_y (m_valid_area t'))
             (cols gray2x3) (rows gray2x3) = dat gray2x3"
    by blast
  from t'(4) have va: "m_valid_area t' = mkRect 0 1 3 2"
    by (simp add: gray2x3_facts signed_divide_int_def)
  from t'(5) have "sub_dat (dat (m_result t')) 0 1 3 2 = dat gray2x3"
    unfolding va by (simp add: gray2x3_facts mkRect_def)
  with t'(1,2,3) va memory_task_decode gray2x3_facts(1,2,5) cw rh neq
  show ?thesis by auto
qed

lemma waiting_task_fields:
  "m_result waiting_task = Mat0" "m_filename waiting_task = ''a.jpg''"
  "m_wait_images_until waiting_task = 2000"
  by (simp_all add: waiting_task_def Task_LoadImg_file_def world0_def to_int_def)

lemma waiting_task_decode:
  "Task_LoadImg_decode waiting_task world1 =
     (gray2x2, world1\<lparr>now := 300,
        imread_log := [(''a.jpg'', 0), (''a.jpg'', 100), (''a.jpg'', 200), (''a.jpg'', 300)]\<rparr>)"
proof -
  have e: "mat_empty (m_result waiting_task)"
    by (simp add: waiting_task_fields Mat0_def mat_empty_def)
  have a: "\<forall>k<3. mat_empty (imread_at world1 (m_filename waiting_task) (now world1 + 100 * int k)) \<and>
                 now world1 + 100 * int k < m_wait_images_until waiting_task"
    by (simp add: waiting_task_fields world1_def Mat0_def mat_empty_def numeral_3_eq_3 All_less_Suc)
  have b: "\<not> mat_empty (imread_at world1 (m_filename waiting_task) (now world1 + 100 * int 3)) \<or>
           m_wait_images_until waiting_task \<le> now world1 + 100 * int 3"
    using gray2x2_facts(2) by (simp add: waiting_task_fields world1_def)
  show ?thesis
    unfolding Task_LoadImg_decode_steps [OF e a b]
    by (simp add: waiting_task_fields world1_def numeral_3_eq_3 upt_rec [of 0])
qed

theorem Task_LoadImg_task_roundtrip_witness:
  "Task_LoadImg_decode waiting_task world1 =
     (gray2x2, world1\<lparr>now := 300,
        imread_log := [(''a.jpg'', 0), (''a.jpg'', 100), (''a.jpg'', 200), (''a.jpg'', 300)]\<rparr>) \<and>
   wf_mat gray2x2 \<and> \<not> mat_empty gray2x2 \<and>
   snd (levels4 (mat_size gray2x2)) = \<lparr>size_width = 4, size_height = 4\<rparr> \<and>
   cols gray2x2 \<le> size_width \<lparr>size_width = 4, size_height = 4\<rparr> \<and>
   rows gray2x2 \<le> size_height \<lparr>size_width = 4, size_height = 4\<rparr> \<and>
   (\<exists>t'. Task_LoadImg_task levels4 waiting_task world1 =
           (Inr t', world1\<lparr>now := 300,
              imread_log := [(''a.jpg'', 0), (''a.jpg'', 100), (''a.jpg'', 200), (''a.jpg'', 300)]\<rparr>) \<and>
         m_original_image t' = gray2x2 \<and>
         extract_original_area t' (m_result t') = Inr gray2x2)"
proof -
  let ?e = "\<lparr>size_width = 4, size_height = 4\<rparr>"
  have cw: "cols gray2x2 \<le> size_width ?e" and rh: "rows gray2x2 \<le> size_height ?e"
    by (simp_all add: gray2x2_facts)
  from Task_LoadImg_task_roundtrip
    [where levels_for_size = levels4, OF waiting_task_decode gray2x2_facts(1,2,5) cw rh]
    waiting_task_decode gray2x2_facts(1,2,5) cw rh
  show ?thesis by blast
qed

subsection \<open>A decode after the deadline\<close>



section \<open>Properties of the Worker\<close>

lemma finite_opencl_threads:
  assumes "\<forall>i t. wk_thread s i = Some t \<longrightarrow> i < max_threads P"
  shows "finite (opencl_threads P s)"
proof -
  have "opencl_threads P s \<subseteq> {..<max_threads P}"
    using assms by (auto simp: opencl_threads_def)
  then show ?thesis by (rule finite_subset) simp
qed

lemma worker_inv_new: "0 \<le> opencl_cap P \<Longrightarrow> worker_inv P Worker_new"
  by (simp add: worker_inv_def Worker_new_def opencl_threads_def)

lemma worker_inv_start:
  assumes inv: "worker_inv P s" and st: "worker_step P (Start i) s = Some s'"
  shows "worker_inv P s'"
proof -
  from st have i: "i < max_threads P" "wk_thread s i = None"
    by (auto split: if_splits)
  from st i obtain t where f: "find (eligible P s) (wk_tasks s) = Some t"
    by (auto split: option.splits)
  then have el: "eligible P s t"
    by (auto simp: find_Some_iff)
  from st i f have s': "s' = s\<lparr>wk_tasks := remove1 t (wk_tasks s),
                     wk_running := insert t (wk_running s),
                     wk_opencl_users := wk_opencl_users s + (if uses_opencl P t then 1 else 0),
                     wk_thread := (wk_thread s)(i \<mapsto> t)\<rparr>"
    by simp
  from inv have th: "\<forall>i t. wk_thread s i = Some t \<longrightarrow> i < max_threads P"
    and cnt: "wk_opencl_users s = int (card (opencl_threads P s))"
    and cap: "wk_opencl_users s \<le> opencl_cap P"
    and run: "wk_running s \<subseteq> {t. \<exists>i. wk_thread s i = Some t}"
    by (simp_all add: worker_inv_def)
  have fin: "finite (opencl_threads P s)"
    by (rule finite_opencl_threads [OF th])
  have notin: "i \<notin> opencl_threads P s"
    using i(2) by (simp add: opencl_threads_def)
  have th': "\<forall>j u. wk_thread s' j = Some u \<longrightarrow> j < max_threads P"
    using th i(1) by (auto simp: s')
  have run': "wk_running s' \<subseteq> {u. \<exists>j. wk_thread s' j = Some u}"
  proof
    fix u assume "u \<in> wk_running s'"
    then have "u = t \<or> u \<in> wk_running s" by (simp add: s')
    then show "u \<in> {u. \<exists>j. wk_thread s' j = Some u}"
    proof
      assume "u = t"
      then have "wk_thread s' i = Some u" by (simp add: s')
      then show ?thesis by blast
    next
      assume "u \<in> wk_running s"
      with run obtain j where j: "wk_thread s j = Some u" by blast
      with i(2) have "j \<noteq> i" by auto
      with j have "wk_thread s' j = Some u" by (simp add: s')
      then show ?thesis by blast
    qed
  qed
  show ?thesis
  proof (cases "uses_opencl P t")
    case True
    have "opencl_threads P s' = insert i (opencl_threads P s)"
      using True i(2) by (auto simp: opencl_threads_def s')
    then have "card (opencl_threads P s') = Suc (card (opencl_threads P s))"
      using fin notin by simp
    moreover from el True have "wk_opencl_users s < opencl_cap P"
      by (simp add: eligible_def)
    ultimately have "wk_opencl_users s' = int (card (opencl_threads P s'))"
      "wk_opencl_users s' \<le> opencl_cap P"
      using cnt True by (simp_all add: s')
    with th' run' show ?thesis by (simp add: worker_inv_def)
  next
    case False
    have "opencl_threads P s' = opencl_threads P s"
      using False i(2) by (auto simp: opencl_threads_def s')
    then have "wk_opencl_users s' = int (card (opencl_threads P s'))"
      "wk_opencl_users s' \<le> opencl_cap P"
      using cnt cap False by (simp_all add: s')
    with th' run' show ?thesis by (simp add: worker_inv_def)
  qed
qed

lemma worker_inv_finish:
  assumes inv: "worker_inv P s" and st: "worker_step P (Finish i) s = Some s'"
  shows "worker_inv P s'"
proof -
  from st obtain t where t: "wk_thread s i = Some t"
    by (auto split: option.splits)
  with st have s': "s' = s\<lparr>wk_running := wk_running s - {t},
                  wk_opencl_users := wk_opencl_users s - (if uses_opencl P t then 1 else 0),
                  wk_completed_tasks := wk_completed_tasks s + 1,
                  wk_finished := insert t (wk_finished s),
                  wk_thread := (wk_thread s)(i := None)\<rparr>"
    by simp
  from inv have th: "\<forall>i t. wk_thread s i = Some t \<longrightarrow> i < max_threads P"
    and cnt: "wk_opencl_users s = int (card (opencl_threads P s))"
    and cap: "wk_opencl_users s \<le> opencl_cap P"
    and run: "wk_running s \<subseteq> {t. \<exists>i. wk_thread s i = Some t}"
    by (simp_all add: worker_inv_def)
  have fin: "finite (opencl_threads P s)"
    by (rule finite_opencl_threads [OF th])
  have th': "\<forall>j u. wk_thread s' j = Some u \<longrightarrow> j < max_threads P"
    using th by (auto simp: s')
  have run': "wk_running s' \<subseteq> {u. \<exists>j. wk_thread s' j = Some u}"
  proof
    fix u assume "u \<in> wk_running s'"
    then have u: "u \<noteq> t" "u \<in> wk_running s" by (simp_all add: s')
    with run obtain j where j: "wk_thread s j = Some u" by blast
    with t u(1) have "j \<noteq> i" by auto
    with j have "wk_thread s' j = Some u" by (simp add: s')
    then show "u \<in> {u. \<exists>j. wk_thread s' j = Some u}" by blast
  qed
  show ?thesis
  proof (cases "uses_opencl P t")
    case True
    have mem: "i \<in> opencl_threads P s"
      using True t by (simp add: opencl_threads_def)
    have "opencl_threads P s' = opencl_threads P s - {i}"
      by (auto simp: opencl_threads_def s')
    then have "card (opencl_threads P s') = card (opencl_threads P s) - 1"
      using fin mem by simp
    moreover have "0 < card (opencl_threads P s)"
      using fin mem by (auto simp: card_gt_0_iff)
    ultimately have "wk_opencl_users s' = int (card (opencl_threads P s'))"
      "wk_opencl_users s' \<le> opencl_cap P"
      using cnt cap True by (simp_all add: s')
    with th' run' show ?thesis by (simp add: worker_inv_def)
  next
    case False
    have "opencl_threads P s' = opencl_threads P s"
      using False t by (auto simp: opencl_threads_def s')
    then have "wk_opencl_users s' = int (card (opencl_threads P s'))"
      "wk_opencl_users s' \<le> opencl_cap P"
      using cnt cap False by (simp_all add: s')
    with th' run' show ?thesis by (simp add: worker_inv_def)
  qed
qed

lemma worker_inv_step:
  assumes "worker_inv P s" and "worker_step P e s = Some s'"
  shows "worker_inv P s'"
proof (cases e)
  case (Add t)
  with assms show ?thesis
    by (auto simp: worker_inv_def opencl_threads_def)
next
  case (Prepend t)
  with assms show ?thesis
    by (auto simp: worker_inv_def opencl_threads_def)
next
  case (Start i)
  with assms show ?thesis by (auto intro: worker_inv_start)
next
  case (Finish i)
  with assms show ?thesis by (auto intro: worker_inv_finish)
qed

lemma worker_inv_run:
  "worker_inv P s \<Longrightarrow> worker_run P evs s = Some s' \<Longrightarrow> worker_inv P s'"
proof (induction evs arbitrary: s)
  case Nil
  then show ?case by simp
next
  case (Cons e evs)
  from Cons.prems(2) obtain s1 where s1: "worker_step P e s = Some s1"
    and rest: "worker_run P evs s1 = Some s'"
    by (auto split: option.splits)
  from Cons.prems(1) s1 have "worker_inv P s1" by (rule worker_inv_step)
  then show ?case using rest by (rule Cons.IH)
qed

lemma worker_inv_exclusive:
  assumes inv: "worker_inv P s" and cap: "opencl_cap P = 1"
      and o1: "uses_opencl P t1" and o2: "uses_opencl P t2" and ne: "t1 \<noteq> t2"
  shows "\<not> (t1 \<in> wk_running s \<and> t2 \<in> wk_running s)"
proof
  assume both: "t1 \<in> wk_running s \<and> t2 \<in> wk_running s"
  from inv have th: "\<forall>i t. wk_thread s i = Some t \<longrightarrow> i < max_threads P"
    and cnt: "wk_opencl_users s = int (card (opencl_threads P s))"
    and le: "wk_opencl_users s \<le> opencl_cap P"
    and run: "wk_running s \<subseteq> {t. \<exists>i. wk_thread s i = Some t}"
    by (simp_all add: worker_inv_def)
  from both run obtain i j where i: "wk_thread s i = Some t1" and j: "wk_thread s j = Some t2"
    by blast
  with ne have ij: "i \<noteq> j" by auto
  have "{i, j} \<subseteq> opencl_threads P s"
    using i j o1 o2 by (simp add: opencl_threads_def)
  moreover have "finite (opencl_threads P s)"
    by (rule finite_opencl_threads [OF th])
  ultimately have "card {i, j} \<le> card (opencl_threads P s)"
    by (simp add: card_mono)
  with ij have "2 \<le> card (opencl_threads P s)" by simp
  with cnt le cap show False by simp
qed

text \<open>
  Claim C9. In every state that a run of the pool reaches from the new Worker, with a
  resource cap of 1, two different tasks that both use OpenCL are never in the running
  set together, and the resource counter is at most the cap. This holds whether or not
  one task depends on the other.
\<close>

theorem Worker_opencl_exclusive:
  assumes run: "worker_run P evs Worker_new = Some s" and cap: "opencl_cap P = 1"
      and o1: "uses_opencl P t1" and o2: "uses_opencl P t2" and ne: "t1 \<noteq> t2"
  shows "\<not> (t1 \<in> wk_running s \<and> t2 \<in> wk_running s) \<and> wk_opencl_users s \<le> opencl_cap P"
proof -
  have "worker_inv P Worker_new"
    using cap by (simp add: worker_inv_new)
  then have inv: "worker_inv P s"
    using run by (rule worker_inv_run)
  then have "wk_opencl_users s \<le> opencl_cap P"
    by (simp add: worker_inv_def)
  with worker_inv_exclusive [OF inv cap o1 o2 ne] show ?thesis by simp
qed

text \<open>
  Two tasks that use OpenCL are added and thread 0 starts the first. Thread 1 then finds
  no task it may start; it can start the second task once thread 0 has finished.
\<close>

lemma pool2_run:
  "worker_run pool2 [Add 1, Add 2, Start 0] Worker_new =
     Some \<lparr>wk_tasks = [2], wk_running = {1}, wk_opencl_users = 1, wk_total_tasks = 2,
           wk_completed_tasks = 0, wk_finished = {}, wk_thread = (\<lambda>i. None)(0 \<mapsto> 1)\<rparr>"
  by (simp add: pool2_def Worker_new_def eligible_def)

theorem Worker_opencl_exclusive_witness:
  "worker_run pool2 [Add 1, Add 2, Start 0] Worker_new =
     Some \<lparr>wk_tasks = [2], wk_running = {1}, wk_opencl_users = 1, wk_total_tasks = 2,
           wk_completed_tasks = 0, wk_finished = {}, wk_thread = (\<lambda>i. None)(0 \<mapsto> 1)\<rparr> \<and>
   opencl_cap pool2 = 1 \<and> uses_opencl pool2 1 \<and> uses_opencl pool2 2 \<and> (1::nat) \<noteq> 2 \<and>
   \<not> (1 \<in> wk_running \<lparr>wk_tasks = [2], wk_running = {1}, wk_opencl_users = 1, wk_total_tasks = 2,
           wk_completed_tasks = 0, wk_finished = {}, wk_thread = (\<lambda>i. None)(0 \<mapsto> 1)\<rparr> \<and>
      2 \<in> wk_running \<lparr>wk_tasks = [2], wk_running = {1}, wk_opencl_users = 1, wk_total_tasks = 2,
           wk_completed_tasks = 0, wk_finished = {}, wk_thread = (\<lambda>i. None)(0 \<mapsto> 1)\<rparr>) \<and>
   worker_step pool2 (Start 1)
     \<lparr>wk_tasks = [2], wk_running = {1}, wk_opencl_users = 1, wk_total_tasks = 2,
      wk_completed_tasks = 0, wk_finished = {}, wk_thread = (\<lambda>i. None)(0 \<mapsto> 1)\<rparr> = None \<and>
   worker_run pool2 [Add 1, Add 2, Start 0, Start 1] Worker_new = None \<and>
   map_option wk_running (worker_run pool2 [Add 1, Add 2, Start 0, Finish 0, Start 1] Worker_new) =
     Some {2}"
proof -
  have c: "opencl_cap pool2 = 1" and u: "uses_opencl pool2 1" "uses_opencl pool2 2"
    by (simp_all add: pool2_def)
  have n: "(1::nat) \<noteq> 2" by simp
  note Worker_opencl_exclusive [OF pool2_run c u n]
  moreover have "worker_step pool2 (Start 1)
     \<lparr>wk_tasks = [2], wk_running = {1}, wk_opencl_users = 1, wk_total_tasks = 2,
      wk_completed_tasks = 0, wk_finished = {}, wk_thread = (\<lambda>i. None)(0 \<mapsto> 1)\<rparr> = None"
    by (simp add: pool2_def eligible_def)
  moreover have "worker_run pool2 [Add 1, Add 2, Start 0, Start 1] Worker_new = None"
    by (simp add: pool2_def Worker_new_def eligible_def)
  moreover have "map_option wk_running
      (worker_run pool2 [Add 1, Add 2, Start 0, Finish 0, Start 1] Worker_new) = Some {2}"
    by (simp add: pool2_def Worker_new_def eligible_def)
  ultimately show ?thesis
    using pool2_run c u n by simp
qed

end
